theory Spec2Isabelle
  imports Main "HOL-Library.Multiset"
begin

section \<open>Stenella: an RSS aggregator with a managed list of feed sources\<close>

text \<open>
  The program is one Go file, \<^verbatim>\<open>stenella.go\<close>. It keeps a list of feed URLs in memory,
  fetches every feed on request, turns each entry into a \<^verbatim>\<open>FeedItem\<close>, merges the
  items of all feeds and sorts them newest first. Two handlers add and remove feed URLs.

  The embedding follows the source function by function. What the program takes from Go's
  standard library (\<^verbatim>\<open>net/url\<close>, \<^verbatim>\<open>net/http\<close>, \<^verbatim>\<open>encoding/xml\<close>, \<^verbatim>\<open>time\<close>,
  \<^verbatim>\<open>sort\<close>) is not part of the repository; those calls are fields of an environment
  record \<open>env\<close> that every function of the model takes as its first argument. Calls that
  touch the outside world (the HTTP request, the clock) pass a world state \<open>'w\<close> along.
\<close>

subsection \<open>Strings and white space\<close>

text \<open>
  A Go string is read here as its sequence of Unicode code points (runes), which is how
  \<^verbatim>\<open>strings.TrimSpace\<close> reads it. Both decoders of the program (\<^verbatim>\<open>encoding/json\<close> and
  \<^verbatim>\<open>encoding/xml\<close>) deliver valid UTF-8, for which equality of strings and equality of
  rune sequences coincide.
\<close>

type_synonym rune = nat
type_synonym gostring = "rune list"

definition str :: "string \<Rightarrow> gostring" where
  \<comment> \<open>an ASCII literal as a Go string\<close>
  "str s = map of_char s"

definition isSpace :: "rune \<Rightarrow> bool" where
  \<comment> \<open>\<^verbatim>\<open>unicode.IsSpace\<close>: the code points with the Unicode property White_Space\<close>
  "isSpace r \<longleftrightarrow>
     (9 \<le> r \<and> r \<le> 13) \<or> r = 32 \<or> r = 133 \<or> r = 160 \<or> r = 5760 \<or>
     (8192 \<le> r \<and> r \<le> 8202) \<or> r = 8232 \<or> r = 8233 \<or> r = 8239 \<or> r = 8287 \<or> r = 12288"

definition TrimSpace :: "gostring \<Rightarrow> gostring" where
  \<comment> \<open>\<^verbatim>\<open>strings.TrimSpace\<close>: all leading and trailing white space removed\<close>
  "TrimSpace s = rev (dropWhile isSpace (rev (dropWhile isSpace s)))"

subsection \<open>HTTP status codes\<close>

abbreviation StatusOK :: nat where "StatusOK \<equiv> 200"
abbreviation StatusCreated :: nat where "StatusCreated \<equiv> 201"
abbreviation StatusBadRequest :: nat where "StatusBadRequest \<equiv> 400"
abbreviation StatusNotFound :: nat where "StatusNotFound \<equiv> 404"
abbreviation StatusConflict :: nat where "StatusConflict \<equiv> 409"
abbreviation StatusInternalServerError :: nat where "StatusInternalServerError \<equiv> 500"

subsection \<open>Data\<close>

record Item =
  ItemTitle :: gostring
  ItemLink :: gostring
  ItemDescription :: gostring
  PubDate :: gostring

record Channel =
  ChannelTitle :: gostring
  Items :: "Item list"

record RSS =
  RSSChannel :: Channel

text \<open>
  A \<^verbatim>\<open>time.Time\<close> is modelled by the instant it denotes, an integer on the time line;
  \<^verbatim>\<open>t.After(u)\<close> compares instants.
\<close>

type_synonym instant = int

definition After :: "instant \<Rightarrow> instant \<Rightarrow> bool" where
  "After t u \<longleftrightarrow> u < t"

record FeedItem =
  Title :: gostring
  Link :: gostring
  Description :: gostring
  Published :: instant
  Source :: gostring

datatype error =
    GetError gostring
  | DecodeError gostring
  | UnparseableDate gostring

text \<open>
  A call either returns or panics. The only panic the program can raise by itself is the
  nil dereference in \<^verbatim>\<open>fetchFeed\<close>, where the result of \<^verbatim>\<open>url.Parse(feedURL)\<close> is used
  without looking at its error.
\<close>

datatype 'a run = Panicked | Returned 'a

text \<open>The layouts handed to \<^verbatim>\<open>time.Parse\<close>: five constants of package \<^verbatim>\<open>time\<close> and a literal.\<close>

datatype layout = RFC1123Z | RFC1123 | RFC822Z | RFC822 | RFC3339 | Layout gostring

subsection \<open>The standard library and the outside world\<close>

record ('u, 'b, 'w) env =
  url_Parse :: "gostring \<Rightarrow> 'u option"
    \<comment> \<open>\<^verbatim>\<open>url.Parse\<close>; \<open>None\<close> is a non-nil error\<close>
  url_IsAbs :: "'u \<Rightarrow> bool"
  url_ResolveReference :: "'u \<Rightarrow> 'u \<Rightarrow> 'u"
    \<comment> \<open>\<^verbatim>\<open>base.ResolveReference(ref)\<close>, base first\<close>
  url_String :: "'u \<Rightarrow> gostring"
  http_Get :: "gostring \<Rightarrow> 'w \<Rightarrow> 'b option \<times> 'w"
    \<comment> \<open>\<^verbatim>\<open>http.Get\<close>: the response body, or \<open>None\<close> for a non-nil error\<close>
  xml_Decode :: "'b \<Rightarrow> RSS option"
    \<comment> \<open>\<^verbatim>\<open>xml.NewDecoder(body).Decode(&rss)\<close>\<close>
  time_Parse :: "layout \<Rightarrow> gostring \<Rightarrow> instant option"
  time_Now :: "'w \<Rightarrow> instant \<times> 'w"
  sort_Slice :: "(FeedItem \<Rightarrow> FeedItem \<Rightarrow> bool) \<Rightarrow> FeedItem list \<Rightarrow> FeedItem list"
    \<comment> \<open>\<^verbatim>\<open>sort.Slice\<close> with the given \<^verbatim>\<open>less\<close>, as a function from the slice before to the slice after\<close>

subsection \<open>The feed source list and its handlers\<close>

definition feedSources :: "gostring list" where
  "feedSources =
     [str ''https://news.ycombinator.com/rss'',
      str ''https://www.reddit.com/r/golang/.rss'']"

text \<open>
  A handler of the source list takes the decoded request body (\<open>None\<close> when the JSON does
  not decode, otherwise the value of its \<^verbatim>\<open>url\<close> field, empty when the field is missing) and
  the current list; it returns the status code it writes and the list it leaves. The
  handlers hold the write lock for their whole read-modify-write, so each runs as one step.
\<close>

primrec sourceExists :: "gostring \<Rightarrow> gostring list \<Rightarrow> bool" where
  \<comment> \<open>the duplicate scan of \<^verbatim>\<open>apiAddSourceHandler\<close>\<close>
  "sourceExists url [] = False"
| "sourceExists url (s # ss) = (if s = url then True else sourceExists url ss)"

definition apiAddSourceHandler ::
  "('u, 'b, 'w) env \<Rightarrow> gostring option \<Rightarrow> gostring list \<Rightarrow> nat \<times> gostring list" where
  "apiAddSourceHandler E payload srcs =
     (case payload of
        None \<Rightarrow> (StatusBadRequest, srcs)
      | Some raw \<Rightarrow>
          if TrimSpace raw = [] then (StatusBadRequest, srcs)
          else
            let url = TrimSpace raw in
            (case url_Parse E url of
               None \<Rightarrow> (StatusBadRequest, srcs)
             | Some u \<Rightarrow>
                 if \<not> url_IsAbs E u then (StatusBadRequest, srcs)
                 else if sourceExists url srcs then (StatusConflict, srcs)
                 else (StatusCreated, srcs @ [url])))"

fun removeLoop :: "gostring \<Rightarrow> gostring list \<Rightarrow> gostring list \<Rightarrow> bool \<Rightarrow> gostring list \<times> bool" where
  \<comment> \<open>the loop of \<^verbatim>\<open>apiRemoveSourceHandler\<close> over \<^verbatim>\<open>feedSources\<close>, with \<^verbatim>\<open>newList\<close> and \<^verbatim>\<open>found\<close>\<close>
  "removeLoop url [] newList found = (newList, found)"
| "removeLoop url (s # ss) newList found =
     (if s = url then removeLoop url ss newList True
      else removeLoop url ss (newList @ [s]) found)"

definition apiRemoveSourceHandler :: "gostring option \<Rightarrow> gostring list \<Rightarrow> nat \<times> gostring list" where
  "apiRemoveSourceHandler payload srcs =
     (case payload of
        None \<Rightarrow> (StatusBadRequest, srcs)
      | Some raw \<Rightarrow>
          if TrimSpace raw = [] then (StatusBadRequest, srcs)
          else
            let url = TrimSpace raw;
                (newList, found) = removeLoop url srcs [] False
            in if \<not> found then (StatusNotFound, srcs) else (StatusOK, newList))"

subsection \<open>The date parser\<close>

fun tryLayouts :: "(layout \<Rightarrow> gostring \<Rightarrow> instant option) \<Rightarrow> layout list \<Rightarrow> gostring \<Rightarrow> instant option" where
  \<comment> \<open>the loop of \<^verbatim>\<open>parsePubDate\<close> over \<^verbatim>\<open>layouts\<close>: return at the first layout without error\<close>
  "tryLayouts parse [] v = None"
| "tryLayouts parse (l # ls) v =
     (case parse l v of Some t \<Rightarrow> Some t | None \<Rightarrow> tryLayouts parse ls v)"

definition layouts :: "layout list" where
  "layouts = [RFC1123Z, RFC1123, RFC822Z, RFC822, RFC3339]"

definition fallbackLayout :: layout where
  "fallbackLayout = Layout (str ''Mon, 02 Jan 2006 15:04:05'')"

definition parsePubDate ::
  "('u, 'b, 'w) env \<Rightarrow> gostring \<Rightarrow> 'w \<Rightarrow> (instant \<times> error option) \<times> 'w" where
  \<comment> \<open>Go returns a time and an error; the pair keeps both, \<open>None\<close> being the nil error\<close>
  "parsePubDate E v w =
     (case tryLayouts (time_Parse E) layouts v of
        Some t \<Rightarrow> ((t, None), w)
      | None \<Rightarrow>
          (case time_Parse E fallbackLayout v of
             Some t \<Rightarrow> ((t, None), w)
           | None \<Rightarrow>
               (case time_Now E w of
                  (now, w') \<Rightarrow> ((now, Some (UnparseableDate v)), w'))))"

subsection \<open>Fetching one feed\<close>

definition resolveLink :: "('u, 'b, 'w) env \<Rightarrow> 'u option \<Rightarrow> gostring \<Rightarrow> gostring run" where
  \<comment> \<open>the value of \<^verbatim>\<open>it.Link\<close> after the relative-link step; \<open>base\<close> is \<open>None\<close> for a nil pointer\<close>
  "resolveLink E base l =
     (case url_Parse E l of
        None \<Rightarrow> Returned l
      | Some link \<Rightarrow>
          if \<not> url_IsAbs E link then
            (case base of
               None \<Rightarrow> Panicked
             | Some b \<Rightarrow> Returned (url_String E (url_ResolveReference E b link)))
          else Returned l)"

fun itemsLoop ::
  "('u, 'b, 'w) env \<Rightarrow> 'u option \<Rightarrow> gostring \<Rightarrow> Item list \<Rightarrow> FeedItem list \<Rightarrow> 'w
     \<Rightarrow> FeedItem list run \<times> 'w" where
  \<comment> \<open>the loop of \<^verbatim>\<open>fetchFeed\<close> over \<^verbatim>\<open>rss.Channel.Items\<close>, appending to \<^verbatim>\<open>items\<close>\<close>
  "itemsLoop E base src [] items w = (Returned items, w)"
| "itemsLoop E base src (it # its) items w =
     (case parsePubDate E (PubDate it) w of
        ((pub, _), w1) \<Rightarrow>
          (case resolveLink E base (ItemLink it) of
             Panicked \<Rightarrow> (Panicked, w1)
           | Returned l \<Rightarrow>
               itemsLoop E base src its
                 (items @
                  [\<lparr>Title = TrimSpace (ItemTitle it),
                    Link = TrimSpace l,
                    Description = TrimSpace (ItemDescription it),
                    Published = pub,
                    Source = src\<rparr>])
                 w1))"

definition fetchFeed ::
  "('u, 'b, 'w) env \<Rightarrow> gostring \<Rightarrow> 'w \<Rightarrow> (error + FeedItem list) run \<times> 'w" where
  "fetchFeed E feedURL w =
     (case http_Get E feedURL w of
        (None, w1) \<Rightarrow> (Returned (Inl (GetError feedURL)), w1)
      | (Some body, w1) \<Rightarrow>
          (case xml_Decode E body of
             None \<Rightarrow> (Returned (Inl (DecodeError feedURL)), w1)
           | Some rss \<Rightarrow>
               (case itemsLoop E (url_Parse E feedURL) (ChannelTitle (RSSChannel rss))
                       (Items (RSSChannel rss)) [] w1 of
                  (Panicked, w2) \<Rightarrow> (Panicked, w2)
                | (Returned items, w2) \<Rightarrow> (Returned (Inr items), w2))))"

subsection \<open>Aggregating all feeds\<close>

fun sourcesLoop ::
  "('u, 'b, 'w) env \<Rightarrow> gostring list \<Rightarrow> FeedItem list \<Rightarrow> 'w \<Rightarrow> FeedItem list run \<times> 'w" where
  \<comment> \<open>the loop of \<^verbatim>\<open>aggregateFeeds\<close> over \<^verbatim>\<open>sources\<close>, appending to \<^verbatim>\<open>all\<close>\<close>
  "sourcesLoop E [] all w = (Returned all, w)"
| "sourcesLoop E (src # rest) all w =
     (case fetchFeed E src w of
        (Panicked, w1) \<Rightarrow> (Panicked, w1)
      | (Returned (Inl err), w1) \<Rightarrow> sourcesLoop E rest all w1
      | (Returned (Inr itms), w1) \<Rightarrow> sourcesLoop E rest (all @ itms) w1)"

definition newerFirst :: "FeedItem \<Rightarrow> FeedItem \<Rightarrow> bool" where
  \<comment> \<open>the \<^verbatim>\<open>less\<close> closure given to \<^verbatim>\<open>sort.Slice\<close>\<close>
  "newerFirst a b \<longleftrightarrow> After (Published a) (Published b)"

definition aggregateFeeds ::
  "('u, 'b, 'w) env \<Rightarrow> gostring list \<Rightarrow> 'w \<Rightarrow> (FeedItem list \<times> error option) run \<times> 'w" where
  \<comment> \<open>the second argument is the snapshot of \<^verbatim>\<open>feedSources\<close> taken under the read lock\<close>
  "aggregateFeeds E sources w =
     (case sourcesLoop E sources [] w of
        (Panicked, w1) \<Rightarrow> (Panicked, w1)
      | (Returned all, w1) \<Rightarrow> (Returned (sort_Slice E newerFirst all, None), w1))"

definition apiFeedsHandler ::
  "('u, 'b, 'w) env \<Rightarrow> gostring list \<Rightarrow> 'w \<Rightarrow> (nat \<times> FeedItem list option) run \<times> 'w" where
  \<comment> \<open>the status code and, on success, the items encoded as the JSON body\<close>
  "apiFeedsHandler E sources w =
     (case aggregateFeeds E sources w of
        (Panicked, w1) \<Rightarrow> (Panicked, w1)
      | (Returned (items, Some err), w1) \<Rightarrow> (Returned (StatusInternalServerError, None), w1)
      | (Returned (items, None), w1) \<Rightarrow> (Returned (StatusOK, Some items), w1))"

subsection \<open>What the model asks of the standard library\<close>

text \<open>
  \<^verbatim>\<open>sort.Slice\<close> rearranges the slice by swaps, so its result is always a permutation of
  its argument; for a \<^verbatim>\<open>less\<close> that is a transitive ordering in the sense of
  \<^verbatim>\<open>sort.Interface\<close> no element of the result is \<^verbatim>\<open>less\<close> than an element before it.
  The documentation of \<^verbatim>\<open>sort.Slice\<close> promises no more: the sort is not guaranteed to be
  stable, and equal elements may be reversed from their original order.
\<close>

definition transitiveOrdering :: "('a \<Rightarrow> 'a \<Rightarrow> bool) \<Rightarrow> bool" where
  "transitiveOrdering lt \<longleftrightarrow>
     (\<forall>a. \<not> lt a a) \<and>
     (\<forall>a b c. lt a b \<and> lt b c \<longrightarrow> lt a c) \<and>
     (\<forall>a b c. \<not> lt a b \<and> \<not> lt b c \<longrightarrow> \<not> lt a c)"

definition sortContract :: "(('a \<Rightarrow> 'a \<Rightarrow> bool) \<Rightarrow> 'a list \<Rightarrow> 'a list) \<Rightarrow> bool" where
  "sortContract srt \<longleftrightarrow>
     (\<forall>lt xs. mset (srt lt xs) = mset xs) \<and>
     (\<forall>lt xs. transitiveOrdering lt \<longrightarrow> sorted_wrt (\<lambda>a b. \<not> lt b a) (srt lt xs))"

text \<open>
  \<^verbatim>\<open>http.Get\<close> parses its argument with \<^verbatim>\<open>url.Parse\<close> and refuses a URL without a
  scheme, so a request that succeeds was made to a URL that parses as an absolute one.
\<close>

definition getChecksURL :: "('u, 'b, 'w) env \<Rightarrow> bool" where
  "getChecksURL E \<longleftrightarrow>
     (\<forall>u w. fst (http_Get E u w) \<noteq> None \<longrightarrow>
        (\<exists>b. url_Parse E u = Some b \<and> url_IsAbs E b))"

definition blank :: "gostring \<Rightarrow> bool" where
  "blank s \<longleftrightarrow> (\<forall>c \<in> set s. isSpace c)"

text \<open>
  A reference resolved against an absolute URL is absolute: its string starts with the
  scheme, so it is not blank.
\<close>

definition absResolvesNonblank :: "('u, 'b, 'w) env \<Rightarrow> bool" where
  "absResolvesNonblank E \<longleftrightarrow>
     (\<forall>b r. url_IsAbs E b \<longrightarrow> \<not> blank (url_String E (url_ResolveReference E b r)))"

subsection \<open>Notions of the specification\<close>

definition layoutOrder :: "layout list" where
  \<comment> \<open>the order of the specification: RFC1123 with and without numeric zone, RFC822 with and
      without, RFC3339, the layout without time zone\<close>
  "layoutOrder =
     [RFC1123Z, RFC1123, RFC822Z, RFC822, RFC3339, Layout (str ''Mon, 02 Jan 2006 15:04:05'')]"

definition trimmed :: "gostring \<Rightarrow> bool" where
  \<comment> \<open>no leading and no trailing white space\<close>
  "trimmed s \<longleftrightarrow> (s = [] \<or> (\<not> isSpace (hd s) \<and> \<not> isSpace (last s)))"

definition parsesAbsolute :: "('u, 'b, 'w) env \<Rightarrow> gostring \<Rightarrow> bool" where
  \<comment> \<open>\<^verbatim>\<open>url.Parse\<close> returns no error and the URL it returns is absolute\<close>
  "parsesAbsolute E url \<longleftrightarrow> (case url_Parse E url of None \<Rightarrow> False | Some u \<Rightarrow> url_IsAbs E u)"

definition builtFrom :: "('u, 'b, 'w) env \<Rightarrow> 'u \<Rightarrow> gostring \<Rightarrow> Item \<Rightarrow> FeedItem \<Rightarrow> bool" where
  \<comment> \<open>\<open>fi\<close> is what the loop body of \<^verbatim>\<open>fetchFeed\<close> makes of \<open>it\<close>, for base URL \<open>b\<close>, channel
      title \<open>src\<close> and some state of the clock\<close>
  "builtFrom E b src it fi \<longleftrightarrow>
     Title fi = TrimSpace (ItemTitle it) \<and>
     (\<exists>l. resolveLink E (Some b) (ItemLink it) = Returned l \<and> Link fi = TrimSpace l) \<and>
     Description fi = TrimSpace (ItemDescription it) \<and>
     (\<exists>w. Published fi = fst (fst (parsePubDate E (PubDate it) w))) \<and>
     Source fi = src"

fun fetchResults ::
  "('u, 'b, 'w) env \<Rightarrow> gostring list \<Rightarrow> 'w \<Rightarrow> (error + FeedItem list) run list" where
  \<comment> \<open>what \<^verbatim>\<open>fetchFeed\<close> gives for each source when the sources are fetched one after another\<close>
  "fetchResults E [] w = []"
| "fetchResults E (src # rest) w =
     (case fetchFeed E src w of (r, w1) \<Rightarrow> r # fetchResults E rest w1)"

fun successful :: "(error + FeedItem list) run list \<Rightarrow> FeedItem list" where
  \<comment> \<open>the items of the fetches that returned without error, concatenated in order\<close>
  "successful [] = []"
| "successful (Returned (Inr itms) # rs) = itms @ successful rs"
| "successful (_ # rs) = successful rs"

definition stableNewestFirst :: "FeedItem list \<Rightarrow> FeedItem list" where
  \<comment> \<open>the stable sort by descending \<^verbatim>\<open>Published\<close>\<close>
  "stableNewestFirst xs = sort_key (\<lambda>x. - Published x) xs"

inductive reachable :: "('u, 'b, 'w) env \<Rightarrow> gostring list \<Rightarrow> bool" for E :: "('u, 'b, 'w) env" where
  \<comment> \<open>the source lists that requests to the two handlers can produce from the initial one\<close>
  initial: "reachable E feedSources"
| add: "reachable E srcs \<Longrightarrow> reachable E (snd (apiAddSourceHandler E payload srcs))"
| remove: "reachable E srcs \<Longrightarrow> reachable E (snd (apiRemoveSourceHandler payload srcs))"

subsection \<open>A small instance of the environment\<close>

text \<open>
  To run the model on examples the environment is instantiated by a miniature library:
  URLs of the shape \<^verbatim>\<open>scheme://host/path\<close> and path references, a web of a few
  addresses, a table of dates, a clock that ticks at every reading and insertion sort.
\<close>

datatype durl = DURL (scheme: gostring) (rest: gostring)

definition isSchemeRune :: "rune \<Rightarrow> bool" where
  "isSchemeRune c \<longleftrightarrow>
     (97 \<le> c \<and> c \<le> 122) \<or> (65 \<le> c \<and> c \<le> 90) \<or> (48 \<le> c \<and> c \<le> 57) \<or> c = 43 \<or> c = 45 \<or> c = 46"

definition isLetter :: "rune \<Rightarrow> bool" where
  "isLetter c \<longleftrightarrow> (97 \<le> c \<and> c \<le> 122) \<or> (65 \<le> c \<and> c \<le> 90)"

definition demoParse :: "gostring \<Rightarrow> durl option" where
  "demoParse s =
     (if list_ex (\<lambda>c. c < 32 \<or> c = 127) s then None
      else
        let p = takeWhile isSchemeRune s; r = dropWhile isSchemeRune s
        in if p \<noteq> [] \<and> isLetter (hd p) \<and> take 1 r = [58] then Some (DURL p (drop 1 r))
           else Some (DURL [] s))"

definition demoIsAbs :: "durl \<Rightarrow> bool" where
  "demoIsAbs u \<longleftrightarrow> scheme u \<noteq> []"

definition authorityOf :: "gostring \<Rightarrow> gostring" where
  "authorityOf r = (if take 2 r = [47, 47] then take 2 r @ takeWhile (\<lambda>c. c \<noteq> 47) (drop 2 r) else [])"

definition pathOf :: "gostring \<Rightarrow> gostring" where
  "pathOf r = (if take 2 r = [47, 47] then dropWhile (\<lambda>c. c \<noteq> 47) (drop 2 r) else r)"

definition mergePath :: "gostring \<Rightarrow> gostring \<Rightarrow> gostring" where
  "mergePath p r =
     (if r = [] then p
      else if hd r = 47 then r
      else rev (dropWhile (\<lambda>c. c \<noteq> 47) (rev p)) @ r)"

definition demoResolve :: "durl \<Rightarrow> durl \<Rightarrow> durl" where
  "demoResolve b r =
     (if scheme r \<noteq> [] then r
      else DURL (scheme b) (authorityOf (rest b) @ mergePath (pathOf (rest b)) (rest r)))"

definition demoString :: "durl \<Rightarrow> gostring" where
  "demoString u = (if scheme u = [] then rest u else scheme u @ [58] @ rest u)"

definition feedA :: RSS where
  "feedA =
     \<lparr>RSSChannel =
        \<lparr>ChannelTitle = str ''Example'',
         Items =
           [\<lparr>ItemTitle = str ''  Hello  '', ItemLink = str ''/foo'',
             ItemDescription = str '' first '', PubDate = str ''Mon, 02 Jan 2006 15:04:05 -0700''\<rparr>,
            \<lparr>ItemTitle = str ''World'', ItemLink = str ''https://other.example/bar'',
             ItemDescription = [], PubDate = str ''yesterday''\<rparr>]\<rparr>\<rparr>"

definition feedC :: RSS where
  "feedC =
     \<lparr>RSSChannel =
        \<lparr>ChannelTitle = str ''C'',
         Items =
           [\<lparr>ItemTitle = str ''first'', ItemLink = str ''https://c.example/1'',
             ItemDescription = [], PubDate = str ''02 Jan 06 15:04 MST''\<rparr>,
            \<lparr>ItemTitle = str ''second'', ItemLink = str ''https://c.example/2'',
             ItemDescription = [], PubDate = str ''02 Jan 06 15:04 MST''\<rparr>,
            \<lparr>ItemTitle = str ''newest'', ItemLink = str ''https://c.example/3'',
             ItemDescription = [], PubDate = str ''2006-01-03T00:00:00Z''\<rparr>]\<rparr>\<rparr>"

definition tieEntry :: "gostring \<Rightarrow> Item" where
  \<comment> \<open>the entries of feed T differ in title and link only\<close>
  "tieEntry t =
     \<lparr>ItemTitle = t, ItemLink = str ''https://t.example/'' @ t,
      ItemDescription = [], PubDate = str ''02 Jan 06 15:04 MST''\<rparr>"

definition feedT :: RSS where
  \<comment> \<open>twelve entries with the same date\<close>
  "feedT =
     \<lparr>RSSChannel =
        \<lparr>ChannelTitle = str ''T'',
         Items =
           map tieEntry
             [str ''t00'', str ''t01'', str ''t02'', str ''t03'', str ''t04'', str ''t05'',
              str ''t06'', str ''t07'', str ''t08'', str ''t09'', str ''t10'', str ''t11'']\<rparr>\<rparr>"

definition feedN :: RSS where
  \<comment> \<open>one entry, newer than those of feed T\<close>
  "feedN =
     \<lparr>RSSChannel =
        \<lparr>ChannelTitle = str ''N'',
         Items =
           [\<lparr>ItemTitle = str ''newest'', ItemLink = str ''https://n.example/1'',
             ItemDescription = [], PubDate = str ''2006-01-03T00:00:00Z''\<rparr>]\<rparr>\<rparr>"

definition feedQ :: RSS where
  \<comment> \<open>one entry, whose link is a path with a query that ends in a blank\<close>
  "feedQ =
     \<lparr>RSSChannel =
        \<lparr>ChannelTitle = str ''Q'',
         Items =
           [\<lparr>ItemTitle = str ''query'', ItemLink = str ''/foo?q=a '',
             ItemDescription = [], PubDate = str ''2006-01-03T00:00:00Z''\<rparr>]\<rparr>\<rparr>"

definition demoWeb :: "gostring \<Rightarrow> RSS option option" where
  \<comment> \<open>the body behind each address: a feed, or \<open>Some None\<close> for a body that is not XML\<close>
  "demoWeb u =
     (if u = str ''https://example.com/rss'' then Some (Some feedA)
      else if u = str ''https://c.example/rss'' then Some (Some feedC)
      else if u = str ''https://d.example/rss'' then Some None
      else if u = str ''https://t.example/rss'' then Some (Some feedT)
      else if u = str ''https://n.example/rss'' then Some (Some feedN)
      else if u = str ''https://q.example/rss'' then Some (Some feedQ)
      else None)"

definition demoTimeParse :: "layout \<Rightarrow> gostring \<Rightarrow> instant option" where
  "demoTimeParse l v =
     (if l = RFC1123Z \<and> v = str ''Mon, 02 Jan 2006 15:04:05 -0700'' then Some 1136239445
      else if l = RFC822 \<and> v = str ''02 Jan 06 15:04 MST'' then Some 1136214240
      else if l = RFC3339 \<and> v = str ''2006-01-03T00:00:00Z'' then Some 1136246400
      else if l = Layout (str ''Mon, 02 Jan 2006 15:04:05'') \<and> v = str ''Tue, 03 Jan 2006 01:00:00''
        then Some 1136250000
      else None)"

fun insertBefore :: "('a \<Rightarrow> 'a \<Rightarrow> bool) \<Rightarrow> 'a \<Rightarrow> 'a list \<Rightarrow> 'a list" where
  \<comment> \<open>puts \<open>x\<close> in front of the first element that does not come before it\<close>
  "insertBefore lt x [] = [x]"
| "insertBefore lt x (y # ys) = (if lt y x then y # insertBefore lt x ys else x # y # ys)"

definition stableInsertionSort :: "('a \<Rightarrow> 'a \<Rightarrow> bool) \<Rightarrow> 'a list \<Rightarrow> 'a list" where
  "stableInsertionSort lt xs = foldr (insertBefore lt) xs []"

fun insertBehind :: "('a \<Rightarrow> 'a \<Rightarrow> bool) \<Rightarrow> 'a \<Rightarrow> 'a list \<Rightarrow> 'a list" where
  \<comment> \<open>puts \<open>x\<close> in front of the first element it comes before, behind its equals\<close>
  "insertBehind lt x [] = [x]"
| "insertBehind lt x (y # ys) = (if lt x y then x # y # ys else y # insertBehind lt x ys)"

definition reversingInsertionSort :: "('a \<Rightarrow> 'a \<Rightarrow> bool) \<Rightarrow> 'a list \<Rightarrow> 'a list" where
  \<comment> \<open>a sort that meets the contract of \<^verbatim>\<open>sort.Slice\<close> and reverses equal elements\<close>
  "reversingInsertionSort lt xs = foldr (insertBehind lt) xs []"

definition demoEnv :: "(durl, RSS option, instant) env" where
  "demoEnv =
     \<lparr>url_Parse = demoParse,
      url_IsAbs = demoIsAbs,
      url_ResolveReference = demoResolve,
      url_String = demoString,
      http_Get = (\<lambda>u w. (demoWeb u, w)),
      xml_Decode = (\<lambda>b. b),
      time_Parse = demoTimeParse,
      time_Now = (\<lambda>w. (w, w + 1)),
      sort_Slice = stableInsertionSort\<rparr>"

definition demoEnvR :: "(durl, RSS option, instant) env" where
  \<comment> \<open>the same environment with the other sort\<close>
  "demoEnvR = demoEnv\<lparr>sort_Slice := reversingInsertionSort\<rparr>"

definition titlesOf :: "(FeedItem list \<times> error option) run \<Rightarrow> gostring list" where
  \<comment> \<open>the titles of the items that \<^verbatim>\<open>aggregateFeeds\<close> returned, in order\<close>
  "titlesOf r = (case r of Panicked \<Rightarrow> [] | Returned (items, err) \<Rightarrow> map Title items)"

section \<open>Properties\<close>

subsection \<open>White space\<close>

lemma all_dropWhile: "(\<forall>x\<in>set (dropWhile P s). P x) \<longleftrightarrow> (\<forall>x\<in>set s. P x)"
  by (induction s) auto

lemma last_dropWhile: "dropWhile P xs \<noteq> [] \<Longrightarrow> last (dropWhile P xs) = last xs"
  by (metis last_appendR takeWhile_dropWhile_id)

lemma TrimSpace_Nil_iff: "TrimSpace s = [] \<longleftrightarrow> blank s"
  by (simp add: TrimSpace_def blank_def all_dropWhile)

lemma trimmed_TrimSpace: "trimmed (TrimSpace s)"
proof (cases "TrimSpace s = []")
  case True
  then show ?thesis by (simp only: trimmed_def simp_thms)
next
  case False
  let ?d = "dropWhile isSpace s"
  let ?r = "dropWhile isSpace (rev ?d)"
  from False have r: "?r \<noteq> []" by (simp only: TrimSpace_def rev_is_Nil_conv not_False_eq_True)
  have d: "?d \<noteq> []"
  proof
    assume "?d = []"
    then have "?r = []" by (simp only: rev.simps dropWhile.simps)
    with r show False ..
  qed
  from r have "\<not> isSpace (hd ?r)" by (rule hd_dropWhile)
  with r have l: "\<not> isSpace (last (TrimSpace s))" by (simp only: TrimSpace_def last_rev simp_thms)
  from r have "last ?r = last (rev ?d)" by (rule last_dropWhile)
  with d have "last ?r = hd ?d" by (simp only: last_rev rev_rev_ident simp_thms)
  moreover from d have "\<not> isSpace (hd ?d)" by (rule hd_dropWhile)
  ultimately have "\<not> isSpace (hd (TrimSpace s))" using r by (simp only: TrimSpace_def hd_rev simp_thms)
  with l show ?thesis by (simp only: trimmed_def simp_thms)
qed

lemma TrimSpace_trimmed_id: "trimmed s \<Longrightarrow> TrimSpace s = s"
  by (metis TrimSpace_Nil_iff TrimSpace_def blank_def dropWhile_eq_Nil_conv
    dropWhile_eq_self_iff hd_rev rev_swap trimmed_def)

subsection \<open>The source list\<close>

lemma sourceExists_iff: "sourceExists url srcs \<longleftrightarrow> url \<in> set srcs"
  by (induction srcs) auto

lemma removeLoop_eq:
  "removeLoop url srcs newList found = (newList @ filter (\<lambda>s. s \<noteq> url) srcs, found \<or> url \<in> set srcs)"
  by (induction srcs arbitrary: newList found) auto

lemmas demo_simps = str_def TrimSpace_def isSpace_def parsesAbsolute_def demoEnv_def demoParse_def
  isSchemeRune_def isLetter_def demoIsAbs_def feedSources_def Let_def

lemma apiAddSourceHandler_Some:
  "apiAddSourceHandler E (Some raw) srcs =
     (if TrimSpace raw = [] \<or> \<not> parsesAbsolute E (TrimSpace raw) then (StatusBadRequest, srcs)
      else if TrimSpace raw \<in> set srcs then (StatusConflict, srcs)
      else (StatusCreated, srcs @ [TrimSpace raw]))"
  by (simp add: apiAddSourceHandler_def parsesAbsolute_def sourceExists_iff Let_def split: option.splits)

lemma apiRemoveSourceHandler_Some:
  "apiRemoveSourceHandler (Some raw) srcs =
     (if TrimSpace raw = [] then (StatusBadRequest, srcs)
      else if TrimSpace raw \<notin> set srcs then (StatusNotFound, srcs)
      else (StatusOK, filter (\<lambda>s. s \<noteq> TrimSpace raw) srcs))"
  by (simp add: apiRemoveSourceHandler_def removeLoop_eq Let_def)

lemma filter_neq_id: "u \<notin> set xs \<Longrightarrow> filter (\<lambda>s. s \<noteq> u) xs = xs"
  by (induction xs) auto

lemma filter_distinct_split:
  assumes "distinct srcs" and "u \<in> set srcs"
  shows "\<exists>xs ys. srcs = xs @ u # ys \<and> filter (\<lambda>s. s \<noteq> u) srcs = xs @ ys"
proof -
  from assms(2) obtain xs ys where s: "srcs = xs @ u # ys"
    by (auto simp: in_set_conv_decomp)
  with assms(1) have "u \<notin> set xs" and "u \<notin> set ys" by auto
  then have "filter (\<lambda>s. s \<noteq> u) srcs = xs @ ys"
    unfolding s by (simp add: filter_neq_id)
  with s show ?thesis by blast
qed

lemma distinct_feedSources: "distinct feedSources"
  by (simp add: feedSources_def str_def)

text \<open>
  Claim C2, as the code has it. \<^verbatim>\<open>apiAddSourceHandler\<close> replaces the URL of the request by
  its white-space-trimmed form before it looks at it, so everything is decided on the trimmed
  URL: the request fails with 400 and leaves the list as it is when the trimmed URL is empty
  or does not parse as an absolute URL; it fails with 409, again without a change, when the
  trimmed URL is in the list (exact match); otherwise it answers 201 and appends the trimmed
  URL at the end.
\<close>

theorem add_source_cases:
  "(TrimSpace raw = [] \<or> \<not> parsesAbsolute E (TrimSpace raw) \<longrightarrow>
      apiAddSourceHandler E (Some raw) srcs = (StatusBadRequest, srcs)) \<and>
   (TrimSpace raw \<noteq> [] \<and> parsesAbsolute E (TrimSpace raw) \<and> TrimSpace raw \<in> set srcs \<longrightarrow>
      apiAddSourceHandler E (Some raw) srcs = (StatusConflict, srcs)) \<and>
   (TrimSpace raw \<noteq> [] \<and> parsesAbsolute E (TrimSpace raw) \<and> TrimSpace raw \<notin> set srcs \<longrightarrow>
      apiAddSourceHandler E (Some raw) srcs = (StatusCreated, srcs @ [TrimSpace raw]))"
  by (simp add: apiAddSourceHandler_Some)

theorem add_source_cases_witness:
  "\<not> parsesAbsolute demoEnv (TrimSpace (str ''not-a-url'')) \<and>
   apiAddSourceHandler demoEnv (Some (str ''not-a-url'')) feedSources = (StatusBadRequest, feedSources) \<and>
   (TrimSpace (str '' https://news.ycombinator.com/rss '') \<noteq> [] \<and>
    parsesAbsolute demoEnv (TrimSpace (str '' https://news.ycombinator.com/rss '')) \<and>
    TrimSpace (str '' https://news.ycombinator.com/rss '') \<in> set feedSources) \<and>
   apiAddSourceHandler demoEnv (Some (str '' https://news.ycombinator.com/rss '')) feedSources
     = (StatusConflict, feedSources) \<and>
   (TrimSpace (str ''https://x/rss'') \<noteq> [] \<and>
    parsesAbsolute demoEnv (TrimSpace (str ''https://x/rss'')) \<and>
    TrimSpace (str ''https://x/rss'') \<notin> set feedSources) \<and>
   apiAddSourceHandler demoEnv (Some (str ''https://x/rss'')) feedSources
     = (StatusCreated, feedSources @ [TrimSpace (str ''https://x/rss'')])"
proof -
  have a: "\<not> parsesAbsolute demoEnv (TrimSpace (str ''not-a-url''))" by (simp add: demo_simps)
  have b: "TrimSpace (str '' https://news.ycombinator.com/rss '') \<noteq> [] \<and>
     parsesAbsolute demoEnv (TrimSpace (str '' https://news.ycombinator.com/rss '')) \<and>
     TrimSpace (str '' https://news.ycombinator.com/rss '') \<in> set feedSources" by (simp add: demo_simps)
  have c: "TrimSpace (str ''https://x/rss'') \<noteq> [] \<and>
     parsesAbsolute demoEnv (TrimSpace (str ''https://x/rss'')) \<and>
     TrimSpace (str ''https://x/rss'') \<notin> set feedSources" by (simp add: demo_simps)
  note t = add_source_cases [where E = demoEnv and srcs = feedSources]
  have r1: "apiAddSourceHandler demoEnv (Some (str ''not-a-url'')) feedSources
    = (StatusBadRequest, feedSources)"
    by (rule t [THEN conjunct1, THEN mp]) (rule disjI2, rule a)
  have r2: "apiAddSourceHandler demoEnv (Some (str '' https://news.ycombinator.com/rss '')) feedSources
    = (StatusConflict, feedSources)"
    by (rule t [THEN conjunct2, THEN conjunct1, THEN mp]) (rule b)
  have r3: "apiAddSourceHandler demoEnv (Some (str ''https://x/rss'')) feedSources
    = (StatusCreated, feedSources @ [TrimSpace (str ''https://x/rss'')])"
    by (rule t [THEN conjunct2, THEN conjunct2, THEN mp]) (rule c)
  show ?thesis
    by (rule conjI [OF a conjI [OF r1 conjI [OF b conjI [OF r2 conjI [OF c r3]]]]])
qed

text \<open>
  Claim C2 as stated speaks of the URL of the request itself. For the request
  \<^verbatim>\<open>" https://x/rss"\<close> (one leading blank) that URL does not parse as an absolute URL and
  is not in the list; the handler answers 201 all the same, and the entry it appends is
  \<^verbatim>\<open>"https://x/rss"\<close>, not the URL of the request.
\<close>

theorem add_source_counterexample:
  "\<not> parsesAbsolute demoEnv (str '' https://x/rss'') \<and>
   str '' https://x/rss'' \<notin> set feedSources \<and>
   fst (apiAddSourceHandler demoEnv (Some (str '' https://x/rss'')) feedSources) = StatusCreated \<and>
   snd (apiAddSourceHandler demoEnv (Some (str '' https://x/rss'')) feedSources)
     = feedSources @ [str ''https://x/rss''] \<and>
   snd (apiAddSourceHandler demoEnv (Some (str '' https://x/rss'')) feedSources)
     \<noteq> feedSources @ [str '' https://x/rss'']"
  by (simp add: demo_simps apiAddSourceHandler_def)

text \<open>
  Claim C3, as the code has it. \<^verbatim>\<open>apiRemoveSourceHandler\<close> trims the URL of the request
  too. A URL that is empty after trimming is refused with 400, the list unchanged. Otherwise
  the request fails with 404 and leaves the list unchanged when the trimmed URL is not in it,
  and else answers 200 and leaves the list without the entries equal to the trimmed URL: the
  other entries stay, in their order, and nothing is added. In a list without duplicates
  exactly one entry goes.
\<close>

theorem remove_source_cases:
  "(TrimSpace raw = [] \<longrightarrow>
      apiRemoveSourceHandler (Some raw) srcs = (StatusBadRequest, srcs)) \<and>
   (TrimSpace raw \<noteq> [] \<and> TrimSpace raw \<notin> set srcs \<longrightarrow>
      apiRemoveSourceHandler (Some raw) srcs = (StatusNotFound, srcs)) \<and>
   (TrimSpace raw \<noteq> [] \<and> TrimSpace raw \<in> set srcs \<longrightarrow>
      apiRemoveSourceHandler (Some raw) srcs = (StatusOK, filter (\<lambda>s. s \<noteq> TrimSpace raw) srcs)) \<and>
   (TrimSpace raw \<noteq> [] \<and> TrimSpace raw \<in> set srcs \<and> distinct srcs \<longrightarrow>
      (\<exists>xs ys. srcs = xs @ TrimSpace raw # ys \<and>
         apiRemoveSourceHandler (Some raw) srcs = (StatusOK, xs @ ys)))"
  using filter_distinct_split [of srcs "TrimSpace raw"]
  by (auto simp: apiRemoveSourceHandler_Some)

theorem remove_source_cases_witness:
  "TrimSpace (str ''  '') = [] \<and>
   apiRemoveSourceHandler (Some (str ''  '')) feedSources = (StatusBadRequest, feedSources) \<and>
   (TrimSpace (str ''https://not-present'') \<noteq> [] \<and>
    TrimSpace (str ''https://not-present'') \<notin> set feedSources) \<and>
   apiRemoveSourceHandler (Some (str ''https://not-present'')) feedSources
     = (StatusNotFound, feedSources) \<and>
   (TrimSpace (str '' https://news.ycombinator.com/rss'') \<noteq> [] \<and>
    TrimSpace (str '' https://news.ycombinator.com/rss'') \<in> set feedSources \<and>
    distinct feedSources) \<and>
   (\<exists>xs ys. feedSources = xs @ TrimSpace (str '' https://news.ycombinator.com/rss'') # ys \<and>
      apiRemoveSourceHandler (Some (str '' https://news.ycombinator.com/rss'')) feedSources
        = (StatusOK, xs @ ys))"
proof -
  have a: "TrimSpace (str ''  '') = []" by (simp add: demo_simps)
  have b: "TrimSpace (str ''https://not-present'') \<noteq> [] \<and>
    TrimSpace (str ''https://not-present'') \<notin> set feedSources" by (simp add: demo_simps)
  have c: "TrimSpace (str '' https://news.ycombinator.com/rss'') \<noteq> [] \<and>
    TrimSpace (str '' https://news.ycombinator.com/rss'') \<in> set feedSources \<and>
    distinct feedSources" by (simp add: demo_simps)
  note t = remove_source_cases [where srcs = feedSources]
  have r1: "apiRemoveSourceHandler (Some (str ''  '')) feedSources = (StatusBadRequest, feedSources)"
    by (rule t [THEN conjunct1, THEN mp]) (rule a)
  have r2: "apiRemoveSourceHandler (Some (str ''https://not-present'')) feedSources
     = (StatusNotFound, feedSources)"
    by (rule t [THEN conjunct2, THEN conjunct1, THEN mp]) (rule b)
  have r3: "\<exists>xs ys. feedSources = xs @ TrimSpace (str '' https://news.ycombinator.com/rss'') # ys \<and>
      apiRemoveSourceHandler (Some (str '' https://news.ycombinator.com/rss'')) feedSources
        = (StatusOK, xs @ ys)"
    by (rule t [THEN conjunct2, THEN conjunct2, THEN conjunct2, THEN mp]) (rule c)
  show ?thesis
    by (rule conjI [OF a conjI [OF r1 conjI [OF b conjI [OF r2 conjI [OF c r3]]]]])
qed

text \<open>
  Claim C3 as stated fails at two requests on the initial list. The empty URL is not in the
  list, and the handler answers 400, not 404. The URL \<^verbatim>\<open>" https://news.ycombinator.com/rss"\<close>
  (one leading blank) is not in the list either, and the handler answers 200 and removes the
  first default entry.
\<close>

theorem remove_source_counterexample:
  "[] \<notin> set feedSources \<and>
   apiRemoveSourceHandler (Some []) feedSources = (StatusBadRequest, feedSources) \<and>
   str '' https://news.ycombinator.com/rss'' \<notin> set feedSources \<and>
   apiRemoveSourceHandler (Some (str '' https://news.ycombinator.com/rss'')) feedSources
     = (StatusOK, [str ''https://www.reddit.com/r/golang/.rss''])"
  by (simp add: demo_simps apiRemoveSourceHandler_def)

text \<open>
  Claim C4. Every source list that requests to the two handlers can produce from the initial
  list of two URLs is free of duplicates. Its order is insertion order: a request to
  \<^verbatim>\<open>apiAddSourceHandler\<close> leaves the list as it is or puts one new URL behind its last
  entry, and a request to \<^verbatim>\<open>apiRemoveSourceHandler\<close> leaves it as it is or takes one entry
  out, the entries before and behind it staying in place.
\<close>

theorem reachable_distinct_insertion_order:
  assumes "reachable E srcs"
  shows "distinct srcs \<and>
    (\<forall>payload. snd (apiAddSourceHandler E payload srcs) = srcs \<or>
       (\<exists>u. u \<notin> set srcs \<and> snd (apiAddSourceHandler E payload srcs) = srcs @ [u])) \<and>
    (\<forall>payload. snd (apiRemoveSourceHandler payload srcs) = srcs \<or>
       (\<exists>xs u ys. srcs = xs @ u # ys \<and> snd (apiRemoveSourceHandler payload srcs) = xs @ ys))"
proof -
  have add_step: "snd (apiAddSourceHandler E payload s) = s \<or>
       (\<exists>u. u \<notin> set s \<and> snd (apiAddSourceHandler E payload s) = s @ [u])" for payload s
    by (cases payload) (auto simp: apiAddSourceHandler_Some, simp add: apiAddSourceHandler_def)
  have rem_filter: "snd (apiRemoveSourceHandler payload s) = s \<or>
       (\<exists>u. u \<in> set s \<and> snd (apiRemoveSourceHandler payload s) = filter (\<lambda>x. x \<noteq> u) s)" for payload s
    by (cases payload) (auto simp: apiRemoveSourceHandler_Some, simp add: apiRemoveSourceHandler_def)
  from assms have d: "distinct srcs"
  proof (induction rule: reachable.induct)
    case initial
    show ?case by (rule distinct_feedSources)
  next
    case (add s payload)
    with add_step [of payload s] show ?case by auto
  next
    case (remove s payload)
    with rem_filter [of payload s] show ?case by auto
  qed
  have "snd (apiRemoveSourceHandler payload srcs) = srcs \<or>
       (\<exists>xs u ys. srcs = xs @ u # ys \<and> snd (apiRemoveSourceHandler payload srcs) = xs @ ys)" for payload
    using rem_filter [of payload srcs] filter_distinct_split [OF d] by metis
  with d add_step show ?thesis by blast
qed

theorem reachable_distinct_insertion_order_witness:
  "reachable demoEnv (feedSources @ [str ''https://x/rss'']) \<and>
   (distinct (feedSources @ [str ''https://x/rss'']) \<and>
    (\<forall>payload.
       snd (apiAddSourceHandler demoEnv payload (feedSources @ [str ''https://x/rss'']))
         = feedSources @ [str ''https://x/rss''] \<or>
       (\<exists>u. u \<notin> set (feedSources @ [str ''https://x/rss'']) \<and>
          snd (apiAddSourceHandler demoEnv payload (feedSources @ [str ''https://x/rss'']))
            = (feedSources @ [str ''https://x/rss'']) @ [u])) \<and>
    (\<forall>payload.
       snd (apiRemoveSourceHandler payload (feedSources @ [str ''https://x/rss'']))
         = feedSources @ [str ''https://x/rss''] \<or>
       (\<exists>xs u ys. feedSources @ [str ''https://x/rss''] = xs @ u # ys \<and>
          snd (apiRemoveSourceHandler payload (feedSources @ [str ''https://x/rss''])) = xs @ ys))) \<and>
   apiAddSourceHandler demoEnv (Some (str ''https://x/rss'')) (feedSources @ [str ''https://x/rss''])
     = (StatusConflict, feedSources @ [str ''https://x/rss'']) \<and>
   count_list (feedSources @ [str ''https://x/rss'']) (str ''https://x/rss'') = 1"
proof -
  have "reachable demoEnv (snd (apiAddSourceHandler demoEnv (Some (str ''https://x/rss'')) feedSources))"
    by (rule reachable.add) (rule reachable.initial)
  moreover have "snd (apiAddSourceHandler demoEnv (Some (str ''https://x/rss'')) feedSources)
      = feedSources @ [str ''https://x/rss'']"
    by (simp add: demo_simps apiAddSourceHandler_def)
  ultimately have r: "reachable demoEnv (feedSources @ [str ''https://x/rss''])"
    by (simp only:)
  have c: "apiAddSourceHandler demoEnv (Some (str ''https://x/rss'')) (feedSources @ [str ''https://x/rss''])
     = (StatusConflict, feedSources @ [str ''https://x/rss'']) \<and>
   count_list (feedSources @ [str ''https://x/rss'']) (str ''https://x/rss'') = 1"
    by (simp add: demo_simps apiAddSourceHandler_def)
  show ?thesis
    by (rule conjI [OF r conjI [OF reachable_distinct_insertion_order [OF r] c]])
qed

subsection \<open>The date parser\<close>

lemma tryLayouts_append:
  "tryLayouts parse (ls @ ms) v =
     (case tryLayouts parse ls v of Some t \<Rightarrow> Some t | None \<Rightarrow> tryLayouts parse ms v)"
  by (induction ls) (auto split: option.splits)

lemma tryLayouts_find:
  "tryLayouts parse ls v =
     (case List.find (\<lambda>l. parse l v \<noteq> None) ls of None \<Rightarrow> None | Some l \<Rightarrow> parse l v)"
  by (induction ls) (auto split: option.splits)

lemma layoutOrder_eq: "layoutOrder = layouts @ [fallbackLayout]"
  by (simp add: layoutOrder_def layouts_def fallbackLayout_def)

lemma parsePubDate_tryLayouts:
  "parsePubDate E v w =
     (case tryLayouts (time_Parse E) layoutOrder v of
        Some t \<Rightarrow> ((t, None), w)
      | None \<Rightarrow> ((fst (time_Now E w), Some (UnparseableDate v)), snd (time_Now E w)))"
  by (simp add: parsePubDate_def layoutOrder_eq tryLayouts_append split: option.splits prod.splits)

lemma tryLayouts_None_iff:
  "tryLayouts parse ls v = None \<longleftrightarrow> (\<forall>l \<in> set ls. parse l v = None)"
  by (induction ls) (auto split: option.splits)

lemmas date_simps = str_def demoEnv_def demoTimeParse_def layoutOrder_def

text \<open>
  Claim C5. \<^verbatim>\<open>parsePubDate\<close> tries the layouts in the order RFC1123 with numeric zone,
  RFC1123, RFC822 with numeric zone, RFC822, RFC3339 and last the layout without time zone.
  It returns the time of the first layout of this order that parses, with a nil error and
  without reading the clock. Its error is non-nil exactly when none of the six layouts
  parses, and then the time it returns is the reading of the clock.
\<close>

theorem parsePubDate_first_layout:
  "(\<forall>l t. List.find (\<lambda>l. time_Parse E l v \<noteq> None) layoutOrder = Some l \<and> time_Parse E l v = Some t
        \<longrightarrow> parsePubDate E v w = ((t, None), w)) \<and>
   ((snd (fst (parsePubDate E v w)) \<noteq> None) = (\<forall>l \<in> set layoutOrder. time_Parse E l v = None)) \<and>
   ((\<forall>l \<in> set layoutOrder. time_Parse E l v = None) \<longrightarrow>
      parsePubDate E v w = ((fst (time_Now E w), Some (UnparseableDate v)), snd (time_Now E w)))"
proof (intro conjI allI impI)
  fix l t
  assume "List.find (\<lambda>l. time_Parse E l v \<noteq> None) layoutOrder = Some l \<and> time_Parse E l v = Some t"
  then have "tryLayouts (time_Parse E) layoutOrder v = Some t"
    by (simp add: tryLayouts_find)
  then show "parsePubDate E v w = ((t, None), w)"
    by (simp add: parsePubDate_tryLayouts)
next
  show "(snd (fst (parsePubDate E v w)) \<noteq> None) = (\<forall>l \<in> set layoutOrder. time_Parse E l v = None)"
    by (cases "tryLayouts (time_Parse E) layoutOrder v")
       (simp_all add: parsePubDate_tryLayouts flip: tryLayouts_None_iff)
next
  assume "\<forall>l \<in> set layoutOrder. time_Parse E l v = None"
  then have "tryLayouts (time_Parse E) layoutOrder v = None"
    by (simp add: tryLayouts_None_iff)
  then show "parsePubDate E v w = ((fst (time_Now E w), Some (UnparseableDate v)), snd (time_Now E w))"
    by (simp add: parsePubDate_tryLayouts)
qed

theorem parsePubDate_first_layout_witness:
  "(List.find (\<lambda>l. time_Parse demoEnv l (str ''2006-01-03T00:00:00Z'') \<noteq> None) layoutOrder = Some RFC3339 \<and>
    time_Parse demoEnv RFC3339 (str ''2006-01-03T00:00:00Z'') = Some 1136246400) \<and>
   parsePubDate demoEnv (str ''2006-01-03T00:00:00Z'') 7 = ((1136246400, None), 7) \<and>
   list_all (\<lambda>l. time_Parse demoEnv l (str ''yesterday'') = None) layoutOrder \<and>
   parsePubDate demoEnv (str ''yesterday'') 7 = ((7, Some (UnparseableDate (str ''yesterday''))), 8)"
proof -
  have a: "List.find (\<lambda>l. time_Parse demoEnv l (str ''2006-01-03T00:00:00Z'') \<noteq> None) layoutOrder = Some RFC3339 \<and>
    time_Parse demoEnv RFC3339 (str ''2006-01-03T00:00:00Z'') = Some 1136246400"
    by (simp add: date_simps)
  have b: "list_all (\<lambda>l. time_Parse demoEnv l (str ''yesterday'') = None) layoutOrder"
    by (simp add: date_simps)
  then have b': "\<forall>l \<in> set layoutOrder. time_Parse demoEnv l (str ''yesterday'') = None"
    by (simp only: list_all_iff)
  note t = parsePubDate_first_layout [where E = demoEnv and w = 7]
  have r1: "parsePubDate demoEnv (str ''2006-01-03T00:00:00Z'') 7 = ((1136246400, None), 7)"
    by (rule t [THEN conjunct1, THEN spec, THEN spec, THEN mp]) (rule a)
  have "parsePubDate demoEnv (str ''yesterday'') 7
      = ((fst (time_Now demoEnv 7), Some (UnparseableDate (str ''yesterday''))), snd (time_Now demoEnv 7))"
    by (rule t [THEN conjunct2, THEN conjunct2, THEN mp]) (rule b')
  then have r2: "parsePubDate demoEnv (str ''yesterday'') 7
      = ((7, Some (UnparseableDate (str ''yesterday''))), 8)"
    by (simp add: demoEnv_def)
  show ?thesis
    by (rule conjI [OF a conjI [OF r1 conjI [OF b r2]]])
qed

subsection \<open>Sorting\<close>

text \<open>Both insertion sorts of the small instance meet the contract of \<^verbatim>\<open>sort.Slice\<close>.\<close>

lemma mset_insertBehind: "mset (insertBehind lt x ys) = add_mset x (mset ys)"
  by (induction ys) auto

lemma mset_insertBefore: "mset (insertBefore lt x ys) = add_mset x (mset ys)"
  by (induction ys) auto

lemma set_insertBehind: "set (insertBehind lt x ys) = insert x (set ys)"
  by (induction ys) auto

lemma set_insertBefore: "set (insertBefore lt x ys) = insert x (set ys)"
  by (induction ys) auto

lemma transitiveOrdering_irrefl: "transitiveOrdering lt \<Longrightarrow> \<not> lt a a"
  unfolding transitiveOrdering_def by blast

lemma transitiveOrdering_trans: "transitiveOrdering lt \<Longrightarrow> lt a b \<Longrightarrow> lt b c \<Longrightarrow> lt a c"
  unfolding transitiveOrdering_def by blast

lemma transitiveOrdering_negtrans:
  "transitiveOrdering lt \<Longrightarrow> \<not> lt a b \<Longrightarrow> \<not> lt b c \<Longrightarrow> \<not> lt a c"
  unfolding transitiveOrdering_def by blast

lemma transitiveOrdering_asym: "transitiveOrdering lt \<Longrightarrow> lt a b \<Longrightarrow> \<not> lt b a"
  using transitiveOrdering_irrefl transitiveOrdering_trans by metis

lemma sorted_insertBehind:
  assumes "transitiveOrdering lt"
  shows "sorted_wrt (\<lambda>a b. \<not> lt b a) ys \<Longrightarrow> sorted_wrt (\<lambda>a b. \<not> lt b a) (insertBehind lt x ys)"
proof (induction ys)
  case Nil
  show ?case by simp
next
  case (Cons y ys)
  from Cons.prems have tl: "sorted_wrt (\<lambda>a b. \<not> lt b a) ys"
    and hd: "\<forall>z \<in> set ys. \<not> lt z y" by simp_all
  show ?case
  proof (cases "lt x y")
    case True
    have "\<not> lt z x" if "z \<in> set (y # ys)" for z
    proof
      assume "lt z x"
      with True assms have zy: "lt z y" by (metis transitiveOrdering_trans)
      show False
      proof (cases "z = y")
        case True
        with zy assms show False by (metis transitiveOrdering_irrefl)
      next
        case False
        with that have "z \<in> set ys" by simp
        with hd zy show False by blast
      qed
    qed
    then have "\<forall>z \<in> set (y # ys). \<not> lt z x" by blast
    with True Cons.prems show ?thesis by (simp del: set_simps)
  next
    case False
    from tl have "sorted_wrt (\<lambda>a b. \<not> lt b a) (insertBehind lt x ys)" by (rule Cons.IH)
    with False hd show ?thesis by (simp add: set_insertBehind)
  qed
qed

lemma sorted_insertBefore:
  assumes "transitiveOrdering lt"
  shows "sorted_wrt (\<lambda>a b. \<not> lt b a) ys \<Longrightarrow> sorted_wrt (\<lambda>a b. \<not> lt b a) (insertBefore lt x ys)"
proof (induction ys)
  case Nil
  show ?case by simp
next
  case (Cons y ys)
  from Cons.prems have tl: "sorted_wrt (\<lambda>a b. \<not> lt b a) ys"
    and hd: "\<forall>z \<in> set ys. \<not> lt z y" by simp_all
  show ?case
  proof (cases "lt y x")
    case True
    with assms have "\<not> lt x y" by (rule transitiveOrdering_asym)
    moreover from tl have "sorted_wrt (\<lambda>a b. \<not> lt b a) (insertBefore lt x ys)" by (rule Cons.IH)
    ultimately show ?thesis using True hd by (simp add: set_insertBefore)
  next
    case False
    have "\<not> lt z x" if "z \<in> set (y # ys)" for z
    proof (cases "z = y")
      case True
      with False show ?thesis by simp
    next
      case zy: False
      with that hd have "\<not> lt z y" by simp
      with False assms show ?thesis by (metis transitiveOrdering_negtrans)
    qed
    then have "\<forall>z \<in> set (y # ys). \<not> lt z x" by blast
    with False Cons.prems show ?thesis by (simp del: set_simps)
  qed
qed

lemma sortContract_reversing: "sortContract reversingInsertionSort"
proof -
  have m: "mset (reversingInsertionSort lt xs) = mset xs" for lt :: "'a \<Rightarrow> 'a \<Rightarrow> bool" and xs
    unfolding reversingInsertionSort_def by (induction xs) (simp_all add: mset_insertBehind)
  have s: "sorted_wrt (\<lambda>a b. \<not> lt b a) (reversingInsertionSort lt xs)"
    if "transitiveOrdering lt" for lt :: "'a \<Rightarrow> 'a \<Rightarrow> bool" and xs
    unfolding reversingInsertionSort_def by (induction xs) (simp_all add: sorted_insertBehind that)
  from m s show ?thesis unfolding sortContract_def by blast
qed

lemma sortContract_stable: "sortContract stableInsertionSort"
proof -
  have m: "mset (stableInsertionSort lt xs) = mset xs" for lt :: "'a \<Rightarrow> 'a \<Rightarrow> bool" and xs
    unfolding stableInsertionSort_def by (induction xs) (simp_all add: mset_insertBefore)
  have s: "sorted_wrt (\<lambda>a b. \<not> lt b a) (stableInsertionSort lt xs)"
    if "transitiveOrdering lt" for lt :: "'a \<Rightarrow> 'a \<Rightarrow> bool" and xs
    unfolding stableInsertionSort_def by (induction xs) (simp_all add: sorted_insertBefore that)
  from m s show ?thesis unfolding sortContract_def by blast
qed

lemma transitiveOrdering_newerFirst: "transitiveOrdering newerFirst"
  by (auto simp: transitiveOrdering_def newerFirst_def After_def)

subsection \<open>Fetching one feed\<close>

lemma resolveLink_Some: "\<exists>l. resolveLink E (Some b) l0 = Returned l"
  by (simp add: resolveLink_def split: option.splits)

lemma itemsLoop_Some:
  "\<exists>outs w'. itemsLoop E (Some b) src its items w = (Returned (items @ outs), w') \<and>
      list_all2 (builtFrom E b src) its outs"
proof (induction its arbitrary: items w)
  case Nil
  show ?case by simp
next
  case (Cons it its)
  obtain pub err w1 where p: "parsePubDate E (PubDate it) w = ((pub, err), w1)"
    by (metis surj_pair)
  obtain l where l: "resolveLink E (Some b) (ItemLink it) = Returned l"
    using resolveLink_Some [of E b "ItemLink it"] by blast
  define fi where "fi = \<lparr>Title = TrimSpace (ItemTitle it), Link = TrimSpace l,
     Description = TrimSpace (ItemDescription it), Published = pub, Source = src\<rparr>"
  from Cons.IH [of "items @ [fi]" w1] obtain outs w'
    where r: "itemsLoop E (Some b) src its (items @ [fi]) w1 = (Returned ((items @ [fi]) @ outs), w')"
      and a: "list_all2 (builtFrom E b src) its outs" by blast
  have "Published fi = fst (fst (parsePubDate E (PubDate it) w))"
    by (simp add: fi_def p)
  then have "builtFrom E b src it fi"
    unfolding builtFrom_def using l by (auto simp: fi_def)
  with a have "list_all2 (builtFrom E b src) (it # its) (fi # outs)" by simp
  moreover have "itemsLoop E (Some b) src (it # its) items w = (Returned (items @ fi # outs), w')"
    using r by (simp add: p l fi_def)
  ultimately show ?case by blast
qed

lemma fetchFeed_get_fails:
  "http_Get E feedURL w = (None, w1) \<Longrightarrow> fetchFeed E feedURL w = (Returned (Inl (GetError feedURL)), w1)"
  by (simp add: fetchFeed_def)

lemma fetchFeed_decode_fails:
  "http_Get E feedURL w = (Some body, w1) \<Longrightarrow> xml_Decode E body = None \<Longrightarrow>
     fetchFeed E feedURL w = (Returned (Inl (DecodeError feedURL)), w1)"
  by (simp add: fetchFeed_def)

lemma fetchFeed_decoded:
  assumes "getChecksURL E"
    and g: "http_Get E feedURL w = (Some body, w1)"
    and x: "xml_Decode E body = Some rss"
  shows "\<exists>b outs w2. url_Parse E feedURL = Some b \<and> url_IsAbs E b \<and>
     fetchFeed E feedURL w = (Returned (Inr outs), w2) \<and>
     list_all2 (builtFrom E b (ChannelTitle (RSSChannel rss))) (Items (RSSChannel rss)) outs"
proof -
  from g have "fst (http_Get E feedURL w) \<noteq> None" by simp
  with assms(1) obtain b where b: "url_Parse E feedURL = Some b" "url_IsAbs E b"
    unfolding getChecksURL_def by blast
  from itemsLoop_Some [of E b "ChannelTitle (RSSChannel rss)" "Items (RSSChannel rss)" "[]" w1]
  obtain outs w2
    where "itemsLoop E (Some b) (ChannelTitle (RSSChannel rss)) (Items (RSSChannel rss)) [] w1
             = (Returned outs, w2)"
      and a: "list_all2 (builtFrom E b (ChannelTitle (RSSChannel rss))) (Items (RSSChannel rss)) outs"
    by auto
  then have "fetchFeed E feedURL w = (Returned (Inr outs), w2)"
    by (simp add: fetchFeed_def g x b)
  with a b show ?thesis by blast
qed

lemma fetchFeed_returns:
  assumes "getChecksURL E"
  shows "\<exists>r w'. fetchFeed E feedURL w = (Returned r, w')"
proof -
  obtain g w1 where g: "http_Get E feedURL w = (g, w1)" by (metis surj_pair)
  show ?thesis
  proof (cases g)
    case None
    with g show ?thesis by (auto dest: fetchFeed_get_fails)
  next
    case (Some body)
    show ?thesis
    proof (cases "xml_Decode E body")
      case None
      with g Some show ?thesis by (auto dest: fetchFeed_decode_fails)
    next
      case (Some rss)
      with g \<open>g = Some body\<close> fetchFeed_decoded [OF assms] show ?thesis by blast
    qed
  qed
qed

subsection \<open>Aggregation\<close>

lemma sourcesLoop_successful:
  assumes "getChecksURL E"
  shows "\<exists>w'. sourcesLoop E srcs all w = (Returned (all @ successful (fetchResults E srcs w)), w')"
proof (induction srcs arbitrary: all w)
  case Nil
  show ?case by simp
next
  case (Cons src rest)
  from fetchFeed_returns [OF assms] obtain r w1 where f: "fetchFeed E src w = (Returned r, w1)"
    by blast
  show ?case
  proof (cases r)
    case (Inl err)
    with f Cons.IH [of all w1] show ?thesis by simp
  next
    case (Inr itms)
    with f Cons.IH [of "all @ itms" w1] show ?thesis by simp
  qed
qed

lemma length_fetchResults: "length (fetchResults E srcs w) = length srcs"
  by (induction srcs arbitrary: w) (auto split: prod.splits)

lemma successful_Cons_subset: "set (successful rs) \<subseteq> set (successful (r # rs))"
proof (cases r)
  case Panicked
  then show ?thesis by simp
next
  case (Returned x)
  then show ?thesis by (cases x) simp_all
qed

lemma successful_superset:
  "i < length rs \<Longrightarrow> rs ! i = Returned (Inr itms) \<Longrightarrow> set itms \<subseteq> set (successful rs)"
proof (induction rs arbitrary: i)
  case Nil
  then show ?case by simp
next
  case (Cons r rs)
  show ?case
  proof (cases i)
    case 0
    with Cons.prems show ?thesis by simp
  next
    case (Suc j)
    with Cons.prems have "j < length rs" and "rs ! j = Returned (Inr itms)" by simp_all
    then have "set itms \<subseteq> set (successful rs)" by (rule Cons.IH)
    with successful_Cons_subset [of rs r] show ?thesis by blast
  qed
qed

lemma aggregateFeeds_returns:
  assumes "getChecksURL E"
  shows "\<exists>w'. aggregateFeeds E srcs w
     = (Returned (sort_Slice E newerFirst (successful (fetchResults E srcs w)), None), w')"
  using sourcesLoop_successful [OF assms, of srcs "[]" w] by (auto simp: aggregateFeeds_def)

lemma sorted_newerFirst:
  "sorted_wrt (\<lambda>a b. \<not> newerFirst b a) xs = sorted_wrt (\<lambda>a b. Published b \<le> Published a) xs"
  by (simp add: newerFirst_def After_def not_less)

subsection \<open>The small instance\<close>

lemmas url_simps = demoParse_def demoIsAbs_def demoResolve_def demoString_def authorityOf_def
  pathOf_def mergePath_def isSchemeRune_def isLetter_def

lemmas fetch_simps = fetchFeed_def parsePubDate_def layouts_def fallbackLayout_def
  resolveLink_def demoWeb_def demoTimeParse_def feedA_def feedC_def feedT_def feedN_def
  feedQ_def tieEntry_def TrimSpace_def isSpace_def str_def Let_def

lemma getChecksURL_demoEnv: "getChecksURL demoEnv"
  unfolding getChecksURL_def
proof (intro allI impI)
  fix u and w :: instant
  assume "fst (http_Get demoEnv u w) \<noteq> None"
  then have "u = str ''https://example.com/rss'' \<or> u = str ''https://c.example/rss'' \<or>
      u = str ''https://d.example/rss'' \<or> u = str ''https://t.example/rss'' \<or>
      u = str ''https://n.example/rss'' \<or> u = str ''https://q.example/rss''"
    by (simp add: demoEnv_def demoWeb_def split: if_splits)
  then show "\<exists>b. url_Parse demoEnv u = Some b \<and> url_IsAbs demoEnv b"
    by (auto simp: demoEnv_def url_simps str_def)
qed

lemma getChecksURL_demoEnvR: "getChecksURL demoEnvR"
  using getChecksURL_demoEnv by (simp add: getChecksURL_def demoEnvR_def demoEnv_def)

lemma absResolvesNonblank_demoEnv: "absResolvesNonblank demoEnv"
proof -
  have "\<not> blank (demoString (demoResolve b r))" if "demoIsAbs b" for b r
  proof -
    from that have "scheme (demoResolve b r) \<noteq> []"
      by (simp add: demoIsAbs_def demoResolve_def)
    then have "58 \<in> set (demoString (demoResolve b r))"
      by (simp add: demoString_def)
    moreover have "\<not> isSpace 58" by (simp add: isSpace_def)
    ultimately show ?thesis unfolding blank_def by blast
  qed
  then show ?thesis by (simp add: absResolvesNonblank_def demoEnv_def)
qed

lemma sort_Slice_demoEnv: "sortContract (sort_Slice demoEnv)"
  by (simp add: demoEnv_def sortContract_stable)

lemma sort_Slice_demoEnvR: "sortContract (sort_Slice demoEnvR)"
  by (simp add: demoEnvR_def sortContract_reversing)

lemma fetchFeed_demo_A:
  "fetchFeed demoEnv (str ''https://example.com/rss'') 5 =
     (Returned (Inr
        [\<lparr>Title = str ''Hello'', Link = str ''https://example.com/foo'',
          Description = str ''first'', Published = 1136239445, Source = str ''Example''\<rparr>,
         \<lparr>Title = str ''World'', Link = str ''https://other.example/bar'',
          Description = [], Published = 5, Source = str ''Example''\<rparr>]), 6)"
  by (simp add: demoEnv_def fetch_simps url_simps)


lemma fetchFeed_demo_B:
  "fetchFeed demoEnv (str ''https://b.example/feed'') w
     = (Returned (Inl (GetError (str ''https://b.example/feed''))), w)"
  by (simp add: demoEnv_def fetchFeed_def demoWeb_def str_def)

lemma fetchFeed_demo_C:
  "fetchFeed demoEnv (str ''https://c.example/rss'') w =
     (Returned (Inr
        [\<lparr>Title = str ''first'', Link = str ''https://c.example/1'',
          Description = [], Published = 1136214240, Source = str ''C''\<rparr>,
         \<lparr>Title = str ''second'', Link = str ''https://c.example/2'',
          Description = [], Published = 1136214240, Source = str ''C''\<rparr>,
         \<lparr>Title = str ''newest'', Link = str ''https://c.example/3'',
          Description = [], Published = 1136246400, Source = str ''C''\<rparr>]), w)"
  by (simp add: demoEnv_def fetch_simps url_simps)

lemma fetchFeed_demoEnvR: "fetchFeed demoEnvR u w = fetchFeed demoEnv u w"
proof -
  have "parsePubDate demoEnvR v w0 = parsePubDate demoEnv v w0" for v w0
    by (simp add: parsePubDate_def demoEnvR_def split: option.splits)
  moreover have "resolveLink demoEnvR b l = resolveLink demoEnv b l" for b l
    by (simp add: resolveLink_def demoEnvR_def split: option.splits)
  ultimately have "itemsLoop demoEnvR b src its items w0 = itemsLoop demoEnv b src its items w0"
    for b src its items w0
    by (induction its arbitrary: items w0) (simp_all split: prod.splits run.splits)
  then show ?thesis by (simp add: fetchFeed_def demoEnvR_def split: prod.splits option.splits)
qed

subsection \<open>What \<^verbatim>\<open>fetchFeed\<close> returns\<close>

lemma builtFrom_nth:
  "list_all2 (builtFrom E b src) its outs \<Longrightarrow> i < length outs \<Longrightarrow> builtFrom E b src (its ! i) (outs ! i)"
  by (simp add: list_all2_conv_all_nth)

lemma parsePubDate_fallback_time:
  "\<forall>l \<in> set layoutOrder. time_Parse E l v = None \<Longrightarrow>
     fst (fst (parsePubDate E v w)) = fst (time_Now E w)"
  by (simp add: parsePubDate_tryLayouts tryLayouts_None_iff [THEN iffD2])

text \<open>
  Claim C10. The library is one whose \<^verbatim>\<open>http.Get\<close> checks its URL (\<open>getChecksURL\<close>).
  When the request succeeds and the body decodes, \<^verbatim>\<open>fetchFeed\<close> returns without error one \<^verbatim>\<open>FeedItem\<close> for each item of the channel, in document order: the list has the
  length of the channel's item list, and its \<open>i\<close>-th element carries the trimmed title and
  description of the \<open>i\<close>-th item, the channel title as source and the time that
  \<^verbatim>\<open>parsePubDate\<close> gives for the \<open>i\<close>-th \<^verbatim>\<open>pubDate\<close>. A \<^verbatim>\<open>pubDate\<close> that no layout parses
  does not drop the item: its time is a reading of the clock.
\<close>

theorem fetchFeed_one_item_per_entry:
  assumes "getChecksURL E"
    and "http_Get E feedURL w = (Some body, w1)"
    and "xml_Decode E body = Some rss"
  shows "\<exists>outs w2. fetchFeed E feedURL w = (Returned (Inr outs), w2) \<and>
     length outs = length (Items (RSSChannel rss)) \<and>
     (\<forall>i < length outs.
        Title (outs ! i) = TrimSpace (ItemTitle (Items (RSSChannel rss) ! i)) \<and>
        Description (outs ! i) = TrimSpace (ItemDescription (Items (RSSChannel rss) ! i)) \<and>
        Source (outs ! i) = ChannelTitle (RSSChannel rss) \<and>
        (\<exists>w0. Published (outs ! i) = fst (fst (parsePubDate E (PubDate (Items (RSSChannel rss) ! i)) w0))) \<and>
        ((\<forall>l \<in> set layoutOrder. time_Parse E l (PubDate (Items (RSSChannel rss) ! i)) = None) \<longrightarrow>
           (\<exists>w0. Published (outs ! i) = fst (time_Now E w0))))"
proof -
  let ?its = "Items (RSSChannel rss)" and ?src = "ChannelTitle (RSSChannel rss)"
  from fetchFeed_decoded [OF assms] obtain b outs w2
    where f: "fetchFeed E feedURL w = (Returned (Inr outs), w2)"
      and a: "list_all2 (builtFrom E b ?src) ?its outs" by blast
  from a have len: "length outs = length ?its" by (simp add: list_all2_lengthD)
  have "Title (outs ! i) = TrimSpace (ItemTitle (?its ! i)) \<and>
        Description (outs ! i) = TrimSpace (ItemDescription (?its ! i)) \<and>
        Source (outs ! i) = ?src \<and>
        (\<exists>w0. Published (outs ! i) = fst (fst (parsePubDate E (PubDate (?its ! i)) w0))) \<and>
        ((\<forall>l \<in> set layoutOrder. time_Parse E l (PubDate (?its ! i)) = None) \<longrightarrow>
           (\<exists>w0. Published (outs ! i) = fst (time_Now E w0)))"
    if "i < length outs" for i
  proof -
    from a that have bf: "builtFrom E b ?src (?its ! i) (outs ! i)" by (rule builtFrom_nth)
    then obtain w0 where p: "Published (outs ! i) = fst (fst (parsePubDate E (PubDate (?its ! i)) w0))"
      unfolding builtFrom_def by blast
    have "(\<forall>l \<in> set layoutOrder. time_Parse E l (PubDate (?its ! i)) = None) \<longrightarrow>
           (\<exists>w0. Published (outs ! i) = fst (time_Now E w0))"
      using p parsePubDate_fallback_time by metis
    with bf p show ?thesis unfolding builtFrom_def by blast
  qed
  with f len show ?thesis by blast
qed

theorem fetchFeed_one_item_per_entry_witness:
  "getChecksURL demoEnv \<and>
   http_Get demoEnv (str ''https://example.com/rss'') 5 = (Some (Some feedA), 5) \<and>
   xml_Decode demoEnv (Some feedA) = Some feedA \<and>
   (\<exists>outs w2. fetchFeed demoEnv (str ''https://example.com/rss'') 5 = (Returned (Inr outs), w2) \<and>
     length outs = length (Items (RSSChannel feedA)) \<and>
     (\<forall>i < length outs.
        Title (outs ! i) = TrimSpace (ItemTitle (Items (RSSChannel feedA) ! i)) \<and>
        Description (outs ! i) = TrimSpace (ItemDescription (Items (RSSChannel feedA) ! i)) \<and>
        Source (outs ! i) = ChannelTitle (RSSChannel feedA) \<and>
        (\<exists>w0. Published (outs ! i) = fst (fst (parsePubDate demoEnv (PubDate (Items (RSSChannel feedA) ! i)) w0))) \<and>
        ((\<forall>l \<in> set layoutOrder. time_Parse demoEnv l (PubDate (Items (RSSChannel feedA) ! i)) = None) \<longrightarrow>
           (\<exists>w0. Published (outs ! i) = fst (time_Now demoEnv w0)))))"
proof -
  have g: "http_Get demoEnv (str ''https://example.com/rss'') 5 = (Some (Some feedA), 5)"
    by (simp add: demoEnv_def demoWeb_def)
  have x: "xml_Decode demoEnv (Some feedA) = Some feedA"
    by (simp add: demoEnv_def)
  show ?thesis
    by (rule conjI [OF getChecksURL_demoEnv conjI [OF g conjI [OF x
          fetchFeed_one_item_per_entry [OF getChecksURL_demoEnv g x]]]])
qed

text \<open>
  Claim C7, as the code has it. The library is one whose \<^verbatim>\<open>http.Get\<close> checks its URL.
  When the request succeeds and the body decodes, the link of every item that parses as a
  relative URL is replaced by the string of its resolution against the parsed feed URL, and
  the \<^verbatim>\<open>FeedItem\<close> carries that string with leading and trailing white space removed:
  \<^verbatim>\<open>strings.TrimSpace\<close> is applied after the resolution, as to every string field. Where
  the string has no white space at its ends the link is the string itself; in particular,
  where the library resolves the link to \<^verbatim>\<open>https://example.com/foo\<close>, as \<^verbatim>\<open>net/url\<close>
  does for \<^verbatim>\<open>/foo\<close> in a feed at \<^verbatim>\<open>https://example.com/rss\<close>, that is the link of the
  \<^verbatim>\<open>FeedItem\<close>. The resolution itself is the library's (\<^verbatim>\<open>ResolveReference\<close> and
  \<^verbatim>\<open>String\<close>).
\<close>

theorem fetchFeed_resolves_relative_links:
  assumes "getChecksURL E"
    and "http_Get E feedURL w = (Some body, w1)"
    and "xml_Decode E body = Some rss"
    and "i < length (Items (RSSChannel rss))"
    and "url_Parse E (ItemLink (Items (RSSChannel rss) ! i)) = Some r"
    and "\<not> url_IsAbs E r"
  shows "\<exists>b outs w2. url_Parse E feedURL = Some b \<and>
     fetchFeed E feedURL w = (Returned (Inr outs), w2) \<and> i < length outs \<and>
     Link (outs ! i) = TrimSpace (url_String E (url_ResolveReference E b r)) \<and>
     (trimmed (url_String E (url_ResolveReference E b r)) \<longrightarrow>
        Link (outs ! i) = url_String E (url_ResolveReference E b r)) \<and>
     (url_String E (url_ResolveReference E b r) = str ''https://example.com/foo'' \<longrightarrow>
        Link (outs ! i) = str ''https://example.com/foo'')"
proof -
  let ?its = "Items (RSSChannel rss)" and ?src = "ChannelTitle (RSSChannel rss)"
  from fetchFeed_decoded [OF assms(1-3)] obtain b outs w2
    where b: "url_Parse E feedURL = Some b"
      and f: "fetchFeed E feedURL w = (Returned (Inr outs), w2)"
      and a: "list_all2 (builtFrom E b ?src) ?its outs" by blast
  from a assms(4) have i: "i < length outs" by (simp add: list_all2_lengthD)
  with a have "builtFrom E b ?src (?its ! i) (outs ! i)" by (rule builtFrom_nth)
  then obtain l where "resolveLink E (Some b) (ItemLink (?its ! i)) = Returned l"
    and "Link (outs ! i) = TrimSpace l"
    unfolding builtFrom_def by blast
  with assms(5,6) have l: "Link (outs ! i) = TrimSpace (url_String E (url_ResolveReference E b r))"
    by (auto simp: resolveLink_def)
  then have t: "trimmed (url_String E (url_ResolveReference E b r)) \<longrightarrow>
        Link (outs ! i) = url_String E (url_ResolveReference E b r)"
    by (simp add: TrimSpace_trimmed_id)
  have "trimmed (str ''https://example.com/foo'')"
    by (simp add: trimmed_def str_def isSpace_def)
  with t have "url_String E (url_ResolveReference E b r) = str ''https://example.com/foo'' \<longrightarrow>
        Link (outs ! i) = str ''https://example.com/foo''"
    by metis
  with b f i l t show ?thesis by blast
qed

theorem fetchFeed_resolves_relative_links_witness:
  "getChecksURL demoEnv \<and>
   http_Get demoEnv (str ''https://example.com/rss'') 5 = (Some (Some feedA), 5) \<and>
   xml_Decode demoEnv (Some feedA) = Some feedA \<and>
   0 < length (Items (RSSChannel feedA)) \<and>
   url_Parse demoEnv (ItemLink (Items (RSSChannel feedA) ! 0)) = Some (DURL [] (str ''/foo'')) \<and>
   \<not> url_IsAbs demoEnv (DURL [] (str ''/foo'')) \<and>
   (\<exists>b outs w2. url_Parse demoEnv (str ''https://example.com/rss'') = Some b \<and>
     fetchFeed demoEnv (str ''https://example.com/rss'') 5 = (Returned (Inr outs), w2) \<and>
     0 < length outs \<and>
     Link (outs ! 0) = TrimSpace (url_String demoEnv (url_ResolveReference demoEnv b (DURL [] (str ''/foo'')))) \<and>
     (trimmed (url_String demoEnv (url_ResolveReference demoEnv b (DURL [] (str ''/foo'')))) \<longrightarrow>
        Link (outs ! 0) = url_String demoEnv (url_ResolveReference demoEnv b (DURL [] (str ''/foo'')))) \<and>
     (url_String demoEnv (url_ResolveReference demoEnv b (DURL [] (str ''/foo'')))
          = str ''https://example.com/foo'' \<longrightarrow>
        Link (outs ! 0) = str ''https://example.com/foo'')) \<and>
   (\<exists>outs w2. fetchFeed demoEnv (str ''https://example.com/rss'') 5 = (Returned (Inr outs), w2) \<and>
      Link (outs ! 0) = str ''https://example.com/foo'')"
proof -
  have g: "http_Get demoEnv (str ''https://example.com/rss'') 5 = (Some (Some feedA), 5)"
    by (simp add: demoEnv_def demoWeb_def)
  have x: "xml_Decode demoEnv (Some feedA) = Some feedA"
    by (simp add: demoEnv_def)
  have n: "0 < length (Items (RSSChannel feedA))"
    by (simp add: feedA_def)
  have p: "url_Parse demoEnv (ItemLink (Items (RSSChannel feedA) ! 0)) = Some (DURL [] (str ''/foo''))"
    by (simp add: demoEnv_def feedA_def url_simps str_def)
  have r: "\<not> url_IsAbs demoEnv (DURL [] (str ''/foo''))"
    by (simp add: demoEnv_def demoIsAbs_def)
  have e: "\<exists>outs w2. fetchFeed demoEnv (str ''https://example.com/rss'') 5 = (Returned (Inr outs), w2) \<and>
      Link (outs ! 0) = str ''https://example.com/foo''"
    by (simp add: fetchFeed_demo_A)
  show ?thesis
    by (rule conjI [OF getChecksURL_demoEnv conjI [OF g conjI [OF x conjI [OF n conjI [OF p conjI [OF r
          conjI [OF fetchFeed_resolves_relative_links [OF getChecksURL_demoEnv g x n p r] e]]]]]]])
qed

text \<open>
  Claim C7 as stated says that the link is the resolution. \<^verbatim>\<open>url.Parse\<close> accepts a blank in
  a query and \<^verbatim>\<open>String\<close> writes the query as it is, so the resolution of the link
  \<^verbatim>\<open>"/foo?q=a "\<close> of a feed at \<^verbatim>\<open>https://q.example/rss\<close> ends in a blank; the link of
  the \<^verbatim>\<open>FeedItem\<close> is that string without the blank.
\<close>

theorem fetchFeed_resolves_counterexample:
  "url_Parse demoEnv (str ''https://q.example/rss'') = Some (DURL (str ''https'') (str ''//q.example/rss'')) \<and>
   url_Parse demoEnv (str ''/foo?q=a '') = Some (DURL [] (str ''/foo?q=a '')) \<and>
   \<not> url_IsAbs demoEnv (DURL [] (str ''/foo?q=a '')) \<and>
   url_String demoEnv
       (url_ResolveReference demoEnv (DURL (str ''https'') (str ''//q.example/rss''))
          (DURL [] (str ''/foo?q=a '')))
     = str ''https://q.example/foo?q=a '' \<and>
   fetchFeed demoEnv (str ''https://q.example/rss'') 0 =
     (Returned (Inr
        [\<lparr>Title = str ''query'', Link = str ''https://q.example/foo?q=a'', Description = [],
          Published = 1136246400, Source = str ''Q''\<rparr>]), 0) \<and>
   str ''https://q.example/foo?q=a'' \<noteq> str ''https://q.example/foo?q=a ''"
  by (simp add: demoEnv_def fetch_simps url_simps)

lemma trimmed_nonempty: "\<not> blank s \<Longrightarrow> TrimSpace s \<noteq> []"
  by (simp add: TrimSpace_Nil_iff)

text \<open>
  Claim C8. The library is one whose \<^verbatim>\<open>http.Get\<close> checks its URL and whose resolution
  against an absolute URL is never blank (\<open>absResolvesNonblank\<close>). When the request succeeds
  and the body decodes, title, link and description of every \<^verbatim>\<open>FeedItem\<close> that \<^verbatim>\<open>fetchFeed\<close> returns are free of leading and trailing white
  space; the title is non-empty whenever the item's title is not blank, and the link is
  non-empty whenever the item's link is not blank.
\<close>

theorem fetchFeed_fields_trimmed:
  assumes "getChecksURL E"
    and "absResolvesNonblank E"
    and "http_Get E feedURL w = (Some body, w1)"
    and "xml_Decode E body = Some rss"
  shows "\<exists>outs w2. fetchFeed E feedURL w = (Returned (Inr outs), w2) \<and>
     length outs = length (Items (RSSChannel rss)) \<and>
     (\<forall>fi \<in> set outs. trimmed (Title fi) \<and> trimmed (Link fi) \<and> trimmed (Description fi)) \<and>
     (\<forall>i < length outs.
        (\<not> blank (ItemTitle (Items (RSSChannel rss) ! i)) \<longrightarrow> Title (outs ! i) \<noteq> []) \<and>
        (\<not> blank (ItemLink (Items (RSSChannel rss) ! i)) \<longrightarrow> Link (outs ! i) \<noteq> []))"
proof -
  let ?its = "Items (RSSChannel rss)" and ?src = "ChannelTitle (RSSChannel rss)"
  from fetchFeed_decoded [OF assms(1,3,4)] obtain b outs w2
    where b: "url_IsAbs E b"
      and f: "fetchFeed E feedURL w = (Returned (Inr outs), w2)"
      and a: "list_all2 (builtFrom E b ?src) ?its outs" by blast
  from a have len: "length outs = length ?its" by (simp add: list_all2_lengthD)
  have nth: "trimmed (Title (outs ! i)) \<and> trimmed (Link (outs ! i)) \<and> trimmed (Description (outs ! i)) \<and>
        (\<not> blank (ItemTitle (?its ! i)) \<longrightarrow> Title (outs ! i) \<noteq> []) \<and>
        (\<not> blank (ItemLink (?its ! i)) \<longrightarrow> Link (outs ! i) \<noteq> [])"
    if "i < length outs" for i
  proof -
    from a that have bf: "builtFrom E b ?src (?its ! i) (outs ! i)" by (rule builtFrom_nth)
    then obtain l where t: "Title (outs ! i) = TrimSpace (ItemTitle (?its ! i))"
      and d: "Description (outs ! i) = TrimSpace (ItemDescription (?its ! i))"
      and rl: "resolveLink E (Some b) (ItemLink (?its ! i)) = Returned l"
      and l: "Link (outs ! i) = TrimSpace l"
      unfolding builtFrom_def by blast
    have "\<not> blank l" if nb: "\<not> blank (ItemLink (?its ! i))"
    proof (cases "l = ItemLink (?its ! i)")
      case True
      with nb show ?thesis by simp
    next
      case False
      with rl obtain r where "l = url_String E (url_ResolveReference E b r)"
        by (auto simp: resolveLink_def split: option.splits if_splits)
      with assms(2) b show ?thesis unfolding absResolvesNonblank_def by blast
    qed
    then have "\<not> blank (ItemLink (?its ! i)) \<longrightarrow> Link (outs ! i) \<noteq> []"
      by (simp add: l trimmed_nonempty)
    with t d l show ?thesis by (simp add: trimmed_TrimSpace trimmed_nonempty)
  qed
  have "\<forall>fi \<in> set outs. trimmed (Title fi) \<and> trimmed (Link fi) \<and> trimmed (Description fi)"
  proof
    fix fi assume "fi \<in> set outs"
    then obtain i where "i < length outs" and "outs ! i = fi" by (auto simp: in_set_conv_nth)
    with nth [of i] show "trimmed (Title fi) \<and> trimmed (Link fi) \<and> trimmed (Description fi)" by auto
  qed
  with f len nth show ?thesis by blast
qed

theorem fetchFeed_fields_trimmed_witness:
  "getChecksURL demoEnv \<and> absResolvesNonblank demoEnv \<and>
   http_Get demoEnv (str ''https://example.com/rss'') 5 = (Some (Some feedA), 5) \<and>
   xml_Decode demoEnv (Some feedA) = Some feedA \<and>
   (\<exists>outs w2. fetchFeed demoEnv (str ''https://example.com/rss'') 5 = (Returned (Inr outs), w2) \<and>
     length outs = length (Items (RSSChannel feedA)) \<and>
     (\<forall>fi \<in> set outs. trimmed (Title fi) \<and> trimmed (Link fi) \<and> trimmed (Description fi)) \<and>
     (\<forall>i < length outs.
        (\<not> blank (ItemTitle (Items (RSSChannel feedA) ! i)) \<longrightarrow> Title (outs ! i) \<noteq> []) \<and>
        (\<not> blank (ItemLink (Items (RSSChannel feedA) ! i)) \<longrightarrow> Link (outs ! i) \<noteq> []))) \<and>
   \<not> blank (ItemTitle (Items (RSSChannel feedA) ! 0)) \<and>
   \<not> trimmed (ItemTitle (Items (RSSChannel feedA) ! 0))"
proof -
  have g: "http_Get demoEnv (str ''https://example.com/rss'') 5 = (Some (Some feedA), 5)"
    by (simp add: demoEnv_def demoWeb_def)
  have x: "xml_Decode demoEnv (Some feedA) = Some feedA"
    by (simp add: demoEnv_def)
  have e: "\<not> blank (ItemTitle (Items (RSSChannel feedA) ! 0)) \<and>
     \<not> trimmed (ItemTitle (Items (RSSChannel feedA) ! 0))"
    by (simp add: feedA_def blank_def trimmed_def str_def isSpace_def)
  show ?thesis
    by (rule conjI [OF getChecksURL_demoEnv conjI [OF absResolvesNonblank_demoEnv conjI [OF g conjI [OF x
          conjI [OF fetchFeed_fields_trimmed [OF getChecksURL_demoEnv absResolvesNonblank_demoEnv g x] e]]]]])
qed


subsection \<open>What \<^verbatim>\<open>aggregateFeeds\<close> returns\<close>

lemma aggregateFeeds_no_error:
  "aggregateFeeds E srcs w \<noteq> (Returned (items, Some e), w')"
  by (simp add: aggregateFeeds_def split: prod.splits run.splits)

lemma apiFeedsHandler_no_500:
  "apiFeedsHandler E srcs w \<noteq> (Returned (StatusInternalServerError, body), w')"
proof -
  obtain r w1 where a: "aggregateFeeds E srcs w = (r, w1)" by (metis surj_pair)
  show ?thesis
  proof (cases r)
    case Panicked
    with a show ?thesis by (simp add: apiFeedsHandler_def)
  next
    case (Returned p)
    obtain items err where p: "p = (items, err)" by (metis surj_pair)
    with a Returned aggregateFeeds_no_error [of E srcs w items _ w1] have "err = None"
      by (cases err) auto
    with a Returned p show ?thesis by (simp add: apiFeedsHandler_def)
  qed
qed

text \<open>
  Claim C9. For every list of sources and whatever the single fetches do,
  \<^verbatim>\<open>aggregateFeeds\<close> never returns a non-nil error, and \<^verbatim>\<open>apiFeedsHandler\<close> never answers
  500. With an \<^verbatim>\<open>http.Get\<close> that checks its URL the call does return: the error is nil and
  the handler answers 200 with the items.
\<close>

theorem aggregateFeeds_nil_error:
  "(\<forall>items e w'. aggregateFeeds E srcs w \<noteq> (Returned (items, Some e), w')) \<and>
   (\<forall>body w'. apiFeedsHandler E srcs w \<noteq> (Returned (StatusInternalServerError, body), w')) \<and>
   (getChecksURL E \<longrightarrow>
      (\<exists>items w'. aggregateFeeds E srcs w = (Returned (items, None), w') \<and>
         apiFeedsHandler E srcs w = (Returned (StatusOK, Some items), w')))"
proof (intro conjI allI impI)
  fix items e w'
  show "aggregateFeeds E srcs w \<noteq> (Returned (items, Some e), w')"
    by (rule aggregateFeeds_no_error)
next
  fix body w'
  show "apiFeedsHandler E srcs w \<noteq> (Returned (StatusInternalServerError, body), w')"
    by (rule apiFeedsHandler_no_500)
next
  assume "getChecksURL E"
  from aggregateFeeds_returns [OF this, of srcs w] obtain w'
    where "aggregateFeeds E srcs w
       = (Returned (sort_Slice E newerFirst (successful (fetchResults E srcs w)), None), w')" by blast
  then show "\<exists>items w'. aggregateFeeds E srcs w = (Returned (items, None), w') \<and>
         apiFeedsHandler E srcs w = (Returned (StatusOK, Some items), w')"
    by (simp add: apiFeedsHandler_def)
qed

theorem aggregateFeeds_nil_error_witness:
  "getChecksURL demoEnv \<and>
   (\<exists>items w'.
      aggregateFeeds demoEnv [str ''https://example.com/rss'', str ''https://b.example/feed''] 5
        = (Returned (items, None), w') \<and>
      apiFeedsHandler demoEnv [str ''https://example.com/rss'', str ''https://b.example/feed''] 5
        = (Returned (StatusOK, Some items), w'))"
  by (rule conjI [OF getChecksURL_demoEnv
        aggregateFeeds_nil_error [THEN conjunct2, THEN conjunct2, THEN mp, OF getChecksURL_demoEnv]])

text \<open>
  Claim C6. The library is one whose \<^verbatim>\<open>http.Get\<close> checks its URL and whose
  \<^verbatim>\<open>sort.Slice\<close> meets \<open>sortContract\<close>. \<^verbatim>\<open>aggregateFeeds\<close> returns, with a nil error, a
  permutation of the concatenated items of the fetches that succeeded, whatever the other
  fetches did: the items of every source whose fetch succeeded are all in the result, and
  nothing else is.
\<close>

theorem aggregateFeeds_partial_results:
  assumes "getChecksURL E"
    and "sortContract (sort_Slice E)"
  shows "\<exists>out w'. aggregateFeeds E srcs w = (Returned (out, None), w') \<and>
     mset out = mset (successful (fetchResults E srcs w)) \<and>
     (\<forall>i < length srcs. \<forall>itms.
        fetchResults E srcs w ! i = Returned (Inr itms) \<longrightarrow> set itms \<subseteq> set out)"
proof -
  let ?all = "successful (fetchResults E srcs w)"
  from aggregateFeeds_returns [OF assms(1), of srcs w] obtain w'
    where a: "aggregateFeeds E srcs w = (Returned (sort_Slice E newerFirst ?all, None), w')" by blast
  from assms(2) have m: "mset (sort_Slice E newerFirst ?all) = mset ?all"
    unfolding sortContract_def by blast
  then have s: "set (sort_Slice E newerFirst ?all) = set ?all" by (rule mset_eq_setD)
  have "set itms \<subseteq> set (sort_Slice E newerFirst ?all)"
    if "i < length srcs" and "fetchResults E srcs w ! i = Returned (Inr itms)" for i itms
    using that successful_superset [of i "fetchResults E srcs w" itms]
    by (simp add: s length_fetchResults)
  with a m show ?thesis by blast
qed

theorem aggregateFeeds_partial_results_witness:
  "getChecksURL demoEnv \<and> sortContract (sort_Slice demoEnv) \<and>
   (\<exists>out w'.
      aggregateFeeds demoEnv [str ''https://example.com/rss'', str ''https://b.example/feed''] 5
        = (Returned (out, None), w') \<and>
      mset out = mset (successful
        (fetchResults demoEnv [str ''https://example.com/rss'', str ''https://b.example/feed''] 5)) \<and>
      (\<forall>i < length [str ''https://example.com/rss'', str ''https://b.example/feed'']. \<forall>itms.
         fetchResults demoEnv [str ''https://example.com/rss'', str ''https://b.example/feed''] 5 ! i
           = Returned (Inr itms) \<longrightarrow> set itms \<subseteq> set out)) \<and>
   fetchResults demoEnv [str ''https://example.com/rss'', str ''https://b.example/feed''] 5 =
     [Returned (Inr
        [\<lparr>Title = str ''Hello'', Link = str ''https://example.com/foo'',
          Description = str ''first'', Published = 1136239445, Source = str ''Example''\<rparr>,
         \<lparr>Title = str ''World'', Link = str ''https://other.example/bar'',
          Description = [], Published = 5, Source = str ''Example''\<rparr>]),
      Returned (Inl (GetError (str ''https://b.example/feed'')))] \<and>
   fst (aggregateFeeds demoEnv [str ''https://example.com/rss'', str ''https://b.example/feed''] 5) =
     Returned
       ([\<lparr>Title = str ''Hello'', Link = str ''https://example.com/foo'',
          Description = str ''first'', Published = 1136239445, Source = str ''Example''\<rparr>,
         \<lparr>Title = str ''World'', Link = str ''https://other.example/bar'',
          Description = [], Published = 5, Source = str ''Example''\<rparr>], None)"
proof -
  have r: "fetchResults demoEnv [str ''https://example.com/rss'', str ''https://b.example/feed''] 5 =
     [Returned (Inr
        [\<lparr>Title = str ''Hello'', Link = str ''https://example.com/foo'',
          Description = str ''first'', Published = 1136239445, Source = str ''Example''\<rparr>,
         \<lparr>Title = str ''World'', Link = str ''https://other.example/bar'',
          Description = [], Published = 5, Source = str ''Example''\<rparr>]),
      Returned (Inl (GetError (str ''https://b.example/feed'')))]"
    by (simp add: fetchFeed_demo_A fetchFeed_demo_B)
  have a: "fst (aggregateFeeds demoEnv [str ''https://example.com/rss'', str ''https://b.example/feed''] 5) =
     Returned
       ([\<lparr>Title = str ''Hello'', Link = str ''https://example.com/foo'',
          Description = str ''first'', Published = 1136239445, Source = str ''Example''\<rparr>,
         \<lparr>Title = str ''World'', Link = str ''https://other.example/bar'',
          Description = [], Published = 5, Source = str ''Example''\<rparr>], None)"
    by (simp add: aggregateFeeds_def fetchFeed_demo_A fetchFeed_demo_B)
       (simp add: demoEnv_def stableInsertionSort_def newerFirst_def After_def)
  show ?thesis
    by (rule conjI [OF getChecksURL_demoEnv conjI [OF sort_Slice_demoEnv
          conjI [OF aggregateFeeds_partial_results [OF getChecksURL_demoEnv sort_Slice_demoEnv]
            conjI [OF r a]]]])
qed

text \<open>
  Claim C1, as the code has it. The library is one whose \<^verbatim>\<open>http.Get\<close> checks its URL and
  whose \<^verbatim>\<open>sort.Slice\<close> meets \<open>sortContract\<close>. \<^verbatim>\<open>aggregateFeeds\<close> returns the concatenated
  items of the successful fetches rearranged so that no item is newer than an item before
  it: the result is a permutation of the concatenation and its \<^verbatim>\<open>Published\<close> times
  descend, so that the first item is one of the newest of all sources. The order among items
  with equal times is whatever \<^verbatim>\<open>sort.Slice\<close> leaves.
\<close>

theorem aggregateFeeds_newest_first:
  assumes "getChecksURL E"
    and "sortContract (sort_Slice E)"
  shows "\<exists>out w'. aggregateFeeds E srcs w = (Returned (out, None), w') \<and>
     mset out = mset (successful (fetchResults E srcs w)) \<and>
     sorted_wrt (\<lambda>a b. Published b \<le> Published a) out \<and>
     (\<forall>x \<in> set out. Published x \<le> Published (hd out))"
proof -
  let ?all = "successful (fetchResults E srcs w)"
  let ?out = "sort_Slice E newerFirst ?all"
  from aggregateFeeds_returns [OF assms(1), of srcs w] obtain w'
    where a: "aggregateFeeds E srcs w = (Returned (?out, None), w')" by blast
  from assms(2) have m: "mset ?out = mset ?all"
    unfolding sortContract_def by blast
  from assms(2) transitiveOrdering_newerFirst
  have "sorted_wrt (\<lambda>a b. \<not> newerFirst b a) ?out"
    unfolding sortContract_def by blast
  then have s: "sorted_wrt (\<lambda>a b. Published b \<le> Published a) ?out"
    by (simp add: sorted_newerFirst)
  then have "\<forall>x \<in> set ?out. Published x \<le> Published (hd ?out)"
    by (cases ?out) auto
  with a m s show ?thesis by blast
qed


theorem aggregateFeeds_newest_first_witness:
  "getChecksURL demoEnv \<and> sortContract (sort_Slice demoEnv) \<and>
   (\<exists>out w'.
      aggregateFeeds demoEnv [str ''https://example.com/rss'', str ''https://c.example/rss''] 5
        = (Returned (out, None), w') \<and>
      mset out = mset (successful
        (fetchResults demoEnv [str ''https://example.com/rss'', str ''https://c.example/rss''] 5)) \<and>
      sorted_wrt (\<lambda>a b. Published b \<le> Published a) out \<and>
      (\<forall>x \<in> set out. Published x \<le> Published (hd out))) \<and>
   (\<exists>out w'.
      aggregateFeeds demoEnv [str ''https://example.com/rss'', str ''https://c.example/rss''] 5
        = (Returned (out, None), w') \<and>
      map Published out = [1136246400, 1136239445, 1136214240, 1136214240, 5])"
proof -
  have a: "\<exists>out w'.
      aggregateFeeds demoEnv [str ''https://example.com/rss'', str ''https://c.example/rss''] 5
        = (Returned (out, None), w') \<and>
      map Published out = [1136246400, 1136239445, 1136214240, 1136214240, 5]"
    by (simp add: aggregateFeeds_def fetchFeed_demo_A fetchFeed_demo_C)
       (simp add: demoEnv_def stableInsertionSort_def newerFirst_def After_def)
  show ?thesis
    by (rule conjI [OF getChecksURL_demoEnv conjI [OF sort_Slice_demoEnv
          conjI [OF aggregateFeeds_newest_first [OF getChecksURL_demoEnv sort_Slice_demoEnv] a]]])
qed

lemma fetchFeed_demoR_T:
  "fetchFeed demoEnvR (str ''https://t.example/rss'') w =
     (Returned (Inr
        (map (\<lambda>t. \<lparr>Title = t, Link = str ''https://t.example/'' @ t, Description = [],
                    Published = 1136214240, Source = str ''T''\<rparr>)
           [str ''t00'', str ''t01'', str ''t02'', str ''t03'', str ''t04'', str ''t05'',
            str ''t06'', str ''t07'', str ''t08'', str ''t09'', str ''t10'', str ''t11''])), w)"
  unfolding fetchFeed_demoEnvR by (simp add: demoEnv_def fetch_simps url_simps)

lemma fetchFeed_demoR_N:
  "fetchFeed demoEnvR (str ''https://n.example/rss'') w =
     (Returned (Inr
        [\<lparr>Title = str ''newest'', Link = str ''https://n.example/1'', Description = [],
          Published = 1136246400, Source = str ''N''\<rparr>]), w)"
  unfolding fetchFeed_demoEnvR by (simp add: demoEnv_def fetch_simps url_simps)

text \<open>
  Claim C1 as stated asks for the stable sort. \<^verbatim>\<open>sort.Slice\<close> does not promise one, and
  \<^verbatim>\<open>aggregateFeeds\<close> asks for nothing more. The sources here are a feed of twelve items
  with one date and a feed with one newer item: thirteen items in all, one more than Go's
  \<^verbatim>\<open>sort.Slice\<close> sorts by plain insertion. With a sort that meets the contract of
  \<^verbatim>\<open>sort.Slice\<close> and reverses equal elements the twelve come out in reverse order, where
  the stable sort keeps them as fetched.
\<close>

theorem aggregateFeeds_stable_counterexample:
  "getChecksURL demoEnvR \<and> sortContract (sort_Slice demoEnvR) \<and>
   map Title (successful (fetchResults demoEnvR
       [str ''https://t.example/rss'', str ''https://n.example/rss''] 0)) =
     [str ''t00'', str ''t01'', str ''t02'', str ''t03'', str ''t04'', str ''t05'',
      str ''t06'', str ''t07'', str ''t08'', str ''t09'', str ''t10'', str ''t11'', str ''newest''] \<and>
   map Title (stableNewestFirst (successful (fetchResults demoEnvR
       [str ''https://t.example/rss'', str ''https://n.example/rss''] 0))) =
     [str ''newest'', str ''t00'', str ''t01'', str ''t02'', str ''t03'', str ''t04'', str ''t05'',
      str ''t06'', str ''t07'', str ''t08'', str ''t09'', str ''t10'', str ''t11''] \<and>
   titlesOf (fst (aggregateFeeds demoEnvR
       [str ''https://t.example/rss'', str ''https://n.example/rss''] 0)) =
     [str ''newest'', str ''t11'', str ''t10'', str ''t09'', str ''t08'', str ''t07'', str ''t06'',
      str ''t05'', str ''t04'', str ''t03'', str ''t02'', str ''t01'', str ''t00''] \<and>
   fst (aggregateFeeds demoEnvR [str ''https://t.example/rss'', str ''https://n.example/rss''] 0) \<noteq>
     Returned (stableNewestFirst (successful (fetchResults demoEnvR
       [str ''https://t.example/rss'', str ''https://n.example/rss''] 0)), None)"
proof -
  let ?S = "[str ''https://t.example/rss'', str ''https://n.example/rss'']"
  have r: "map Title (successful (fetchResults demoEnvR ?S 0)) =
     [str ''t00'', str ''t01'', str ''t02'', str ''t03'', str ''t04'', str ''t05'',
      str ''t06'', str ''t07'', str ''t08'', str ''t09'', str ''t10'', str ''t11'', str ''newest'']"
    by (simp add: fetchFeed_demoR_T fetchFeed_demoR_N)
  have s: "map Title (stableNewestFirst (successful (fetchResults demoEnvR ?S 0))) =
     [str ''newest'', str ''t00'', str ''t01'', str ''t02'', str ''t03'', str ''t04'', str ''t05'',
      str ''t06'', str ''t07'', str ''t08'', str ''t09'', str ''t10'', str ''t11'']"
    by (simp add: fetchFeed_demoR_T fetchFeed_demoR_N stableNewestFirst_def)
  have a: "titlesOf (fst (aggregateFeeds demoEnvR ?S 0)) =
     [str ''newest'', str ''t11'', str ''t10'', str ''t09'', str ''t08'', str ''t07'', str ''t06'',
      str ''t05'', str ''t04'', str ''t03'', str ''t02'', str ''t01'', str ''t00'']"
    by (simp add: aggregateFeeds_def fetchFeed_demoR_T fetchFeed_demoR_N titlesOf_def)
       (simp add: demoEnvR_def demoEnv_def reversingInsertionSort_def newerFirst_def After_def)
  have n: "fst (aggregateFeeds demoEnvR ?S 0) \<noteq>
     Returned (stableNewestFirst (successful (fetchResults demoEnvR ?S 0)), None)"
  proof
    assume "fst (aggregateFeeds demoEnvR ?S 0) =
      Returned (stableNewestFirst (successful (fetchResults demoEnvR ?S 0)), None)"
    then have "titlesOf (fst (aggregateFeeds demoEnvR ?S 0)) =
      map Title (stableNewestFirst (successful (fetchResults demoEnvR ?S 0)))"
      by (simp add: titlesOf_def)
    then show False unfolding a s by (simp add: str_def)
  qed
  show ?thesis
    by (rule conjI [OF getChecksURL_demoEnvR conjI [OF sort_Slice_demoEnvR
          conjI [OF r conjI [OF s conjI [OF a n]]]]])
qed

end
